theory Spec2Isabelle
  imports Complex_Main "HOL-Library.AList"
begin

section \<open>Python values, errors and results\<close>

text \<open>
  The notebook \<^verbatim>\<open>pendulum_simulator.ipynb\<close> defines one class, \<^verbatim>\<open>PendulumSimulator\<close>.
  Its methods are embedded below as HOL functions. Python floats and the entries of
  torch tensors are idealised as real numbers (no rounding, no infinities, no dtype),
  with one exception: the number of steps of \<^verbatim>\<open>simulate\<close> is an integer read off a
  float quotient, so that quotient is rounded to the nearest double as Python does.
  Every exception the code can raise is a value of the type \<open>error\<close>, and a call that
  may raise returns \<open>error + 'a\<close>.
\<close>

datatype error =
    TypeError
  | ValueError string
  | ZeroDivisionError
  | RuntimeError
  | IndexError
  | AttributeError
  | OverflowError

text \<open>The values that are stored in attributes of the simulator: floats and strings.\<close>

datatype pyval = PyFloat real | PyStr string

definition bind_result :: "error + 'a \<Rightarrow> ('a \<Rightarrow> error + 'b) \<Rightarrow> error + 'b" where
  "bind_result r f = (case r of Inl e \<Rightarrow> Inl e | Inr x \<Rightarrow> f x)"

text \<open>\<^verbatim>\<open>a / b\<close> on attribute values (\<^verbatim>\<open>self.g/self.L\<close>): a string operand is a TypeError,
  a zero divisor a ZeroDivisionError, and the quotient of two floats is idealised as the
  exact quotient.\<close>

fun py_truediv :: "pyval \<Rightarrow> pyval \<Rightarrow> error + real" where
  "py_truediv (PyFloat a) (PyFloat b) = (if b = 0 then Inl ZeroDivisionError else Inr (a / b))"
| "py_truediv _ _ = Inl TypeError"

text \<open>\<^verbatim>\<open>a * b\<close> on Python values: a string operand is a TypeError (a string times a
  float, a string times a string).\<close>

fun py_mul :: "pyval \<Rightarrow> pyval \<Rightarrow> error + real" where
  "py_mul (PyFloat a) (PyFloat b) = Inr (a * b)"
| "py_mul _ _ = Inl TypeError"

text \<open>\<^verbatim>\<open>int(x)\<close> on a float truncates towards zero.\<close>

definition py_int :: "real \<Rightarrow> int" where
  "py_int x = (if 0 \<le> x then \<lfloor>x\<rfloor> else \<lceil>x\<rceil>)"

subsection \<open>Division of two floats, rounded\<close>

text \<open>
  A Python float is an IEEE 754 binary64 number: a multiple \<open>k * 2^(e - 52)\<close> of a power
  of two with \<open>\<bar>k\<bar> \<le> 2^53\<close> and \<open>- 1022 \<le> e \<le> 1023\<close>. \<^verbatim>\<open>a / b\<close> on two floats is
  the exact quotient rounded to the nearest such number, a tie going to the even \<open>k\<close>;
  a result of magnitude \<open>2^1024\<close> or more is an infinity. \<open>round_double\<close> returns
  \<open>None\<close> for an infinity. The arguments are finite floats: infinities and NaN as
  arguments are outside this type.
\<close>

definition round_half_even :: "real \<Rightarrow> int" where
  "round_half_even x =
     (let f = \<lfloor>x\<rfloor> in
      if x - of_int f < 1 / 2 then f
      else if 1 / 2 < x - of_int f then f + 1
      else if even f then f else f + 1)"

text \<open>The exponent \<open>e\<close> of the binade of \<open>x \<noteq> 0\<close>; the subnormal numbers share the
  least exponent.\<close>

definition double_exponent :: "real \<Rightarrow> int" where
  "double_exponent x = max \<lfloor>log 2 \<bar>x\<bar>\<rfloor> (- 1022)"

definition round_double :: "real \<Rightarrow> real option" where
  "round_double x =
     (if x = 0 then Some 0
      else let u = 2 powi (double_exponent x - 52);
               y = of_int (round_half_even (x / u)) * u
           in if 2 powi 1024 \<le> \<bar>y\<bar> then None else Some y)"

text \<open>\<^verbatim>\<open>a / b\<close> on two floats: ZeroDivisionError for a zero divisor, else the rounded
  quotient.\<close>

definition float_truediv :: "real \<Rightarrow> real \<Rightarrow> error + real option" where
  "float_truediv a b = (if b = 0 then Inl ZeroDivisionError else Inr (round_double (a / b)))"

text \<open>\<^verbatim>\<open>int(x)\<close> on the result of a float operation: an infinity is an OverflowError.\<close>

definition int_of_float :: "real option \<Rightarrow> error + int" where
  "int_of_float x = (case x of None \<Rightarrow> Inl OverflowError | Some r \<Rightarrow> Inr (py_int r))"

section \<open>Tensors\<close>

text \<open>
  A tensor is its shape and its entries in row-major order. A tensor of dimension 0 has
  shape \<open>[]\<close> and one entry. Only the operations the notebook uses are modelled.
\<close>

record tensor =
  shape :: "nat list"
  data :: "real list"

definition wf_tensor :: "tensor \<Rightarrow> bool" where
  "wf_tensor t = (length (data t) = prod_list (shape t))"

definition tensor_dim :: "tensor \<Rightarrow> nat" where
  "tensor_dim t = length (shape t)"

definition tmap :: "(real \<Rightarrow> real) \<Rightarrow> tensor \<Rightarrow> tensor" where
  "tmap f t = t\<lparr>data := map f (data t)\<rparr>"

definition torch_sin :: "tensor \<Rightarrow> tensor" where
  "torch_sin t = tmap sin t"

definition torch_cos :: "tensor \<Rightarrow> tensor" where
  "torch_cos t = tmap cos t"

text \<open>\<^verbatim>\<open>c * t\<close> for a float \<open>c\<close>.\<close>

definition scale :: "real \<Rightarrow> tensor \<Rightarrow> tensor" where
  "scale c t = tmap (\<lambda>x. c * x) t"

text \<open>
  \<^verbatim>\<open>a + b\<close> on tensors. Where the notebook adds two tensors, their shapes are equal or
  differ in the last axis only, \<open>w\<close> against \<open>2\<close> with \<open>3 \<le> w\<close>, which torch cannot
  broadcast: equal shapes add entry by entry, anything else is a RuntimeError.
\<close>

definition tadd :: "tensor \<Rightarrow> tensor \<Rightarrow> error + tensor" where
  "tadd a b =
     (if shape a = shape b
      then Inr \<lparr>shape = shape a, data = map2 (\<lambda>x y. x + y) (data a) (data b)\<rparr>
      else Inl RuntimeError)"

text \<open>\<^verbatim>\<open>t.unsqueeze(0)\<close>: a new leading axis of size 1.\<close>

definition unsqueeze0 :: "tensor \<Rightarrow> tensor" where
  "unsqueeze0 t = t\<lparr>shape := 1 # shape t\<rparr>"

text \<open>The entries cut into \<open>n\<close> consecutive rows of width \<open>w\<close>.\<close>

fun chunk :: "nat \<Rightarrow> nat \<Rightarrow> 'a list \<Rightarrow> 'a list list" where
  "chunk 0 w xs = []"
| "chunk (Suc n) w xs = take w xs # chunk n w (drop w xs)"

text \<open>The rows of a tensor along its last axis (for a tensor of dimension at least 1).\<close>

definition rows :: "tensor \<Rightarrow> real list list" where
  "rows t = chunk (prod_list (butlast (shape t))) (last (shape t)) (data t)"

text \<open>\<^verbatim>\<open>t[..., a:b]\<close> with \<open>0 \<le> a \<le> b\<close>: a slice of the last axis, clipped to its size.\<close>

definition slice_last :: "tensor \<Rightarrow> nat \<Rightarrow> nat \<Rightarrow> error + tensor" where
  "slice_last t a b =
     (if shape t = [] then Inl IndexError
      else Inr \<lparr>shape = butlast (shape t) @ [min b (last (shape t)) - min a (last (shape t))],
                data = concat (map (\<lambda>r. take (b - a) (drop a r)) (rows t))\<rparr>)"

text \<open>\<^verbatim>\<open>t[..., i]\<close> with \<open>0 \<le> i\<close>: one index of the last axis, which is dropped.\<close>

definition select_last :: "tensor \<Rightarrow> nat \<Rightarrow> error + tensor" where
  "select_last t i =
     (if shape t = [] then Inl IndexError
      else if last (shape t) \<le> i then Inl IndexError
      else Inr \<lparr>shape = butlast (shape t), data = map (\<lambda>r. r ! i) (rows t)\<rparr>)"

text \<open>\<^verbatim>\<open>torch.cat([a, b], dim=-1)\<close>: the rows of \<open>a\<close> followed by those of \<open>b\<close>, row by row.\<close>

definition cat_last :: "tensor \<Rightarrow> tensor \<Rightarrow> error + tensor" where
  "cat_last a b =
     (if shape a \<noteq> [] \<and> shape b \<noteq> [] \<and> butlast (shape a) = butlast (shape b)
      then Inr \<lparr>shape = butlast (shape a) @ [last (shape a) + last (shape b)],
                data = concat (map2 (\<lambda>r r'. r @ r') (rows a) (rows b))\<rparr>
      else Inl RuntimeError)"

text \<open>
  \<^verbatim>\<open>torch.zeros(dims, device=d)\<close>. The device is not interpreted: a string is taken to
  name a device on which the allocation succeeds, whatever its size (no limit of memory
  or of index width is modelled); anything else is a TypeError. A negative dimension is a
  RuntimeError.
\<close>

definition torch_zeros :: "int list \<Rightarrow> pyval \<Rightarrow> error + tensor" where
  "torch_zeros dims d =
     (case d of
        PyFloat _ \<Rightarrow> Inl TypeError
      | PyStr _ \<Rightarrow>
          if list_ex (\<lambda>k. k < 0) dims then Inl RuntimeError
          else Inr \<lparr>shape = map nat dims, data = replicate (prod_list (map nat dims)) 0\<rparr>)"

text \<open>
  \<^verbatim>\<open>torch.linspace(start, end, steps, device=d)\<close>: \<open>steps\<close> evenly spaced values from
  \<open>start\<close> to \<open>end\<close> inclusive; a single step is \<open>start\<close> alone.
\<close>

definition torch_linspace :: "real \<Rightarrow> real \<Rightarrow> int \<Rightarrow> pyval \<Rightarrow> error + tensor" where
  "torch_linspace start end steps d =
     (case d of
        PyFloat _ \<Rightarrow> Inl TypeError
      | PyStr _ \<Rightarrow>
          if steps < 0 then Inl RuntimeError
          else if steps = 1 then Inr \<lparr>shape = [1], data = [start]\<rparr>
          else Inr \<lparr>shape = [nat steps],
                    data = map (\<lambda>i. start + real i * ((end - start) / real_of_int (steps - 1)))
                             [0..<nat steps]\<rparr>)"

text \<open>
  \<^verbatim>\<open>t[i] = v\<close> on the first axis. In \<^verbatim>\<open>simulate\<close> the value has the shape of one entry
  whenever the assignment is reached; another shape is a RuntimeError here.
\<close>

definition setitem0 :: "tensor \<Rightarrow> nat \<Rightarrow> tensor \<Rightarrow> error + tensor" where
  "setitem0 t i v =
     (if shape t = [] then Inl IndexError
      else if hd (shape t) \<le> i then Inl IndexError
      else if shape v \<noteq> tl (shape t) then Inl RuntimeError
      else let sz = prod_list (tl (shape t))
           in Inr (t\<lparr>data := take (i * sz) (data t) @ data v @ drop ((i + 1) * sz) (data t)\<rparr>))"

text \<open>\<^verbatim>\<open>t[i]\<close> on the first axis, with \<open>0 \<le> i\<close>.\<close>

definition getitem0 :: "tensor \<Rightarrow> nat \<Rightarrow> error + tensor" where
  "getitem0 t i =
     (if shape t = [] then Inl IndexError
      else if hd (shape t) \<le> i then Inl IndexError
      else let sz = prod_list (tl (shape t))
           in Inr \<lparr>shape = tl (shape t), data = take sz (drop (i * sz) (data t))\<rparr>)"

section \<open>The simulator object\<close>

text \<open>
  \<^verbatim>\<open>__init__\<close> sets four attributes. \<^verbatim>\<open>set_params\<close> writes attributes by name with
  \<^verbatim>\<open>setattr\<close>, so any of them can come to hold any value, and an attribute of the class
  (a method) can be hidden by an entry of the instance: \<open>extra\<close> holds those entries.
\<close>

record PendulumSimulator =
  device :: pyval
  g :: pyval
  L :: pyval
  m :: pyval
  extra :: "(string \<times> pyval) list"

definition PendulumSimulator_init :: "pyval \<Rightarrow> PendulumSimulator" where
  "PendulumSimulator_init dev =
     \<lparr>device = dev, g = PyFloat (981 / 100), L = PyFloat 1, m = PyFloat 1, extra = []\<rparr>"

definition instance_fields :: "string list" where
  "instance_fields = [''device'', ''g'', ''L'', ''m'']"

definition class_methods :: "string list" where
  "class_methods =
     [''__init__'', ''set_params'', ''dynamics'', ''rk4_step'', ''simulate'',
      ''compute_cartesian_coords'', ''compute_energy'']"

text \<open>
  The attributes that every instance of a class of Python 3.12 (the version of the
  notebook) has besides its own: those inherited from \<^verbatim>\<open>object\<close>, and \<^verbatim>\<open>__dict__\<close>,
  \<^verbatim>\<open>__doc__\<close>, \<^verbatim>\<open>__module__\<close>, \<^verbatim>\<open>__weakref__\<close> that the class statement provides.
\<close>

definition object_attrs :: "string list" where
  "object_attrs =
     [''__class__'', ''__delattr__'', ''__dict__'', ''__dir__'', ''__doc__'', ''__eq__'',
      ''__format__'', ''__ge__'', ''__getattribute__'', ''__getstate__'', ''__gt__'',
      ''__hash__'', ''__init_subclass__'', ''__le__'', ''__lt__'', ''__module__'',
      ''__ne__'', ''__new__'', ''__reduce__'', ''__reduce_ex__'', ''__repr__'',
      ''__setattr__'', ''__sizeof__'', ''__str__'', ''__subclasshook__'', ''__weakref__'']"

definition hasattr :: "PendulumSimulator \<Rightarrow> string \<Rightarrow> bool" where
  "hasattr s key =
     (key \<in> set instance_fields \<or> key \<in> set (map fst (extra s))
      \<or> key \<in> set class_methods \<or> key \<in> set object_attrs)"

text \<open>
  \<^verbatim>\<open>setattr(self, key, value)\<close> for a key that \<open>hasattr\<close> accepts and a value that is a
  number or a string. \<^verbatim>\<open>__class__\<close> must be a class and \<^verbatim>\<open>__dict__\<close> a dictionary
  (TypeError), \<^verbatim>\<open>__weakref__\<close> is not writable (AttributeError); every other name is
  stored in the instance.
\<close>

definition setattr :: "PendulumSimulator \<Rightarrow> string \<Rightarrow> pyval \<Rightarrow> error + PendulumSimulator" where
  "setattr s key v =
     (if key = ''device'' then Inr (s\<lparr>device := v\<rparr>)
      else if key = ''g'' then Inr (s\<lparr>g := v\<rparr>)
      else if key = ''L'' then Inr (s\<lparr>L := v\<rparr>)
      else if key = ''m'' then Inr (s\<lparr>m := v\<rparr>)
      else if key = ''__class__'' \<or> key = ''__dict__'' then Inl TypeError
      else if key = ''__weakref__'' then Inl AttributeError
      else Inr (s\<lparr>extra := AList.update key v (extra s)\<rparr>))"

text \<open>
  \<^verbatim>\<open>getattr(self, key)\<close> where it is a float or a string: the four attributes of
  \<^verbatim>\<open>__init__\<close> and the entries that \<open>setattr\<close> has stored in the instance. \<open>None\<close>
  stands for anything else (a method of the class, or no attribute).
\<close>

definition getattr :: "PendulumSimulator \<Rightarrow> string \<Rightarrow> pyval option" where
  "getattr s key =
     (if key = ''device'' then Some (device s)
      else if key = ''g'' then Some (g s)
      else if key = ''L'' then Some (L s)
      else if key = ''m'' then Some (m s)
      else map_of (extra s) key)"

text \<open>The message of \<^verbatim>\<open>ValueError(f"parameter '{key}' invalid.")\<close>.\<close>

definition invalid_msg :: "string \<Rightarrow> string" where
  "invalid_msg key = ''parameter '' @ [CHR 0x27] @ key @ [CHR 0x27] @ '' invalid.''"

text \<open>
  The loop of \<^verbatim>\<open>set_params\<close>, \<^verbatim>\<open>for key, value in kwargs.items()\<close>: the keyword
  arguments in their order, as a list of pairs with distinct keys. The simulator is
  returned with the outcome, since the attributes written before an exception stay
  written.
\<close>

fun set_params_loop ::
  "PendulumSimulator \<Rightarrow> (string \<times> pyval) list \<Rightarrow> (error + unit) \<times> PendulumSimulator" where
  "set_params_loop s [] = (Inr (), s)"
| "set_params_loop s ((key, val) # kwargs) =
     (if hasattr s key
      then (case setattr s key val of
              Inl e \<Rightarrow> (Inl e, s)
            | Inr s' \<Rightarrow> set_params_loop s' kwargs)
      else (Inl (ValueError (invalid_msg key)), s))"

text \<open>
  \<^verbatim>\<open>def set_params(self, **kwargs)\<close>, called as a method with keyword arguments. The
  name \<^verbatim>\<open>self\<close> is the positional parameter, bound to the simulator: a keyword
  argument of that name makes the call itself raise TypeError (multiple values for
  \<^verbatim>\<open>self\<close>), before the body runs and with nothing written. Every other name goes to
  \<^verbatim>\<open>kwargs\<close>.
\<close>

definition set_params ::
  "PendulumSimulator \<Rightarrow> (string \<times> pyval) list \<Rightarrow> (error + unit) \<times> PendulumSimulator" where
  "set_params s kwargs =
     (if ''self'' \<in> set (map fst kwargs) then (Inl TypeError, s)
      else set_params_loop s kwargs)"

text \<open>
  A call \<^verbatim>\<open>self.name(...)\<close> of a method: when \<^verbatim>\<open>set_params\<close> has stored a number or a
  string under that name in the instance, the call is a TypeError (not callable).
\<close>

definition call_method :: "PendulumSimulator \<Rightarrow> string \<Rightarrow> (error + 'a) \<Rightarrow> error + 'a" where
  "call_method s name body = (if name \<in> set (map fst (extra s)) then Inl TypeError else body)"

section \<open>Dynamics and the Runge-Kutta step\<close>

text \<open>
  \<^verbatim>\<open>dynamics(state, t=0)\<close>: the two slices of the last axis, then
  \<^verbatim>\<open>-(self.g/self.L)*torch.sin(theta)\<close>, then the concatenation. The time is not used.
\<close>

definition dynamics :: "PendulumSimulator \<Rightarrow> tensor \<Rightarrow> real \<Rightarrow> error + tensor" where
  "dynamics s state t =
     bind_result (slice_last state 0 1) (\<lambda>theta.
     bind_result (slice_last state 1 2) (\<lambda>omega.
     let dTheta_dt = omega in
     bind_result (py_truediv (g s) (L s)) (\<lambda>q.
     let dOmega_dt = scale (- q) (torch_sin theta) in
     cat_last dTheta_dt dOmega_dt)))"

definition rk4_step :: "PendulumSimulator \<Rightarrow> tensor \<Rightarrow> real \<Rightarrow> error + tensor" where
  "rk4_step s state dt =
     bind_result (call_method s ''dynamics'' (dynamics s state 0)) (\<lambda>k1.
     bind_result (tadd state (scale (0.5 * dt) k1)) (\<lambda>a1.
     bind_result (call_method s ''dynamics'' (dynamics s a1 0)) (\<lambda>k2.
     bind_result (tadd state (scale (0.5 * dt) k2)) (\<lambda>a2.
     bind_result (call_method s ''dynamics'' (dynamics s a2 0)) (\<lambda>k3.
     bind_result (tadd state (scale dt k3)) (\<lambda>a3.
     bind_result (call_method s ''dynamics'' (dynamics s a3 0)) (\<lambda>k4.
     bind_result (tadd k1 (scale 2 k2)) (\<lambda>s12.
     bind_result (tadd s12 (scale 2 k3)) (\<lambda>s123.
     bind_result (tadd s123 k4) (\<lambda>ksum.
     tadd state (scale (dt / 6) ksum)))))))))))"

section \<open>The trajectory driver\<close>

text \<open>What \<^verbatim>\<open>simulate\<close> may be given as initial state: a torch tensor, or other Python
  data (a number, or a possibly nested list of numbers).\<close>

datatype pydata = PyNum real | PySeq "pydata list"

datatype state_arg = TorchTensor tensor | Other pydata

fun pydata_shape :: "pydata \<Rightarrow> nat list option" where
  "pydata_shape (PyNum x) = Some []"
| "pydata_shape (PySeq []) = Some [0]"
| "pydata_shape (PySeq (x # xs)) =
     (case pydata_shape x of
        None \<Rightarrow> None
      | Some sh \<Rightarrow>
          if list_all (\<lambda>y. pydata_shape y = Some sh) xs then Some (Suc (length xs) # sh)
          else None)"

fun pydata_flat :: "pydata \<Rightarrow> real list" where
  "pydata_flat (PyNum x) = [x]"
| "pydata_flat (PySeq xs) = concat (map pydata_flat xs)"

text \<open>
  \<^verbatim>\<open>torch.Tensor(x, **kwargs)\<close>, the legacy constructor, with the names of the keyword
  arguments it is called with. Its signatures take the keyword \<^verbatim>\<open>device\<close> and no other:
  any other keyword is a TypeError, whatever the data. With accepted keywords a sequence
  of numbers becomes a tensor, a bare number is a TypeError and a ragged sequence a
  ValueError.
\<close>

definition torch_Tensor :: "pydata \<Rightarrow> string list \<Rightarrow> error + tensor" where
  "torch_Tensor x kwargs =
     (if \<not> set kwargs \<subseteq> {''device''} then Inl TypeError
      else case x of
             PyNum _ \<Rightarrow> Inl TypeError
           | PySeq _ \<Rightarrow>
               (case pydata_shape x of
                  None \<Rightarrow> Inl (ValueError ''expected sequence of equal length'')
                | Some sh \<Rightarrow> Inr \<lparr>shape = sh, data = pydata_flat x\<rparr>))"

text \<open>
  \<^verbatim>\<open>if initial_state.dim() == 1: initial_state = initial_state.unsqueeze(0)\<close>: a single
  state becomes a batch of one state.
\<close>

definition promote :: "tensor \<Rightarrow> tensor" where
  "promote initial_state =
     (if tensor_dim initial_state = 1 then unsqueeze0 initial_state else initial_state)"

text \<open>The body of the loop \<^verbatim>\<open>for i in range(n_steps)\<close>, over the list of indices.\<close>

fun simulate_loop ::
  "PendulumSimulator \<Rightarrow> real \<Rightarrow> nat list \<Rightarrow> tensor \<Rightarrow> tensor \<Rightarrow> error + tensor" where
  "simulate_loop s dt [] state trajectory = Inr trajectory"
| "simulate_loop s dt (i # idxs) state trajectory =
     bind_result (call_method s ''rk4_step'' (rk4_step s state dt)) (\<lambda>state'.
     bind_result (setitem0 trajectory (i + 1) state') (\<lambda>trajectory'.
     simulate_loop s dt idxs state' trajectory'))"

text \<open>\<^verbatim>\<open>x.cpu().numpy()\<close> keeps shape and entries.\<close>

definition cpu_numpy :: "tensor \<Rightarrow> tensor" where
  "cpu_numpy t = t"

text \<open>
  \<^verbatim>\<open>simulate(initial_state, duration, dt=0.01, return_tensor=True)\<close>, with finite floats
  \<open>duration\<close> and \<open>dt\<close>. \<^verbatim>\<open>n_steps = int(duration / dt)\<close> truncates the quotient as the
  float division returns it. The trajectory is allocated with zeros and written at the
  indices \<open>i + 1\<close> of the loop; no statement of the method writes index 0.
\<close>

definition simulate ::
  "PendulumSimulator \<Rightarrow> state_arg \<Rightarrow> real \<Rightarrow> real \<Rightarrow> bool \<Rightarrow> error + (tensor \<times> tensor)" where
  "simulate s initial_state duration dt return_tensor =
     bind_result
       (case initial_state of
          TorchTensor t \<Rightarrow> Inr t
        | Other x \<Rightarrow> torch_Tensor x [''dtype'', ''device'']) (\<lambda>initial_state1.
     let initial_state2 = promote initial_state1 in
     bind_result (float_truediv duration dt) (\<lambda>q.
     bind_result (int_of_float q) (\<lambda>n_steps.
     bind_result
       (torch_zeros ((n_steps + 1) # map int (shape initial_state2)) (device s)) (\<lambda>trajectory.
     bind_result (torch_linspace 0 duration (n_steps + 1) (device s)) (\<lambda>times.
     bind_result
       (simulate_loop s dt [0..<nat n_steps] initial_state2 trajectory) (\<lambda>trajectory'.
     if return_tensor then Inr (times, trajectory')
     else Inr (cpu_numpy times, cpu_numpy trajectory')))))))"

section \<open>Diagnostics\<close>

text \<open>\<^verbatim>\<open>c * t\<close> where \<open>c\<close> is an attribute of the simulator: a string is a TypeError.\<close>

fun py_mul_tensor :: "pyval \<Rightarrow> tensor \<Rightarrow> error + tensor" where
  "py_mul_tensor (PyFloat c) t = Inr (scale c t)"
| "py_mul_tensor (PyStr _) t = Inl TypeError"

definition compute_cartesian_coords ::
  "PendulumSimulator \<Rightarrow> tensor \<Rightarrow> error + (tensor \<times> tensor)" where
  "compute_cartesian_coords s states =
     bind_result (select_last states 0) (\<lambda>th.
     bind_result (py_mul_tensor (L s) (torch_sin th)) (\<lambda>x.
     bind_result (select_last states 0) (\<lambda>th'.
     bind_result (py_mul_tensor (L s) (torch_cos th')) (\<lambda>y.
     Inr (x, y)))))"

text \<open>\<^verbatim>\<open>v(arg)\<close>, a call of an attribute value: neither a float nor a string is callable.\<close>

fun py_call :: "pyval \<Rightarrow> tensor \<Rightarrow> error + tensor" where
  "py_call (PyFloat _) arg = Inl TypeError"
| "py_call (PyStr _) arg = Inl TypeError"

text \<open>
  \<^verbatim>\<open>compute_energy(states)\<close>. The potential energy is written
  \<^verbatim>\<open>self.m * self.g * self.L(1-torch.cos(theta))\<close>: the length is called, not multiplied.
\<close>

definition compute_energy :: "PendulumSimulator \<Rightarrow> tensor \<Rightarrow> error + tensor" where
  "compute_energy s states =
     bind_result (select_last states 0) (\<lambda>theta.
     bind_result (select_last states 1) (\<lambda>omega.
     bind_result (py_mul (PyFloat 0.5) (m s)) (\<lambda>half_m.
     bind_result (py_mul_tensor (L s) omega) (\<lambda>l_omega.
     let T = scale half_m (tmap (\<lambda>x. x ^ 2) l_omega) in
     bind_result (py_mul (m s) (g s)) (\<lambda>mg.
     bind_result (py_call (L s) (tmap (\<lambda>x. 1 - x) (torch_cos theta))) (\<lambda>c.
     let U = scale mg c in
     let E = tadd T U in
     E))))))"

text \<open>The energy of one state as the specification defines it.\<close>

definition energy_spec :: "real \<Rightarrow> real \<Rightarrow> real \<Rightarrow> real \<Rightarrow> real \<Rightarrow> real" where
  "energy_spec mv gv lv theta omega =
     0.5 * mv * (lv * omega) ^ 2 + mv * gv * lv * (1 - cos theta)"

section \<open>States as pairs, and the scheme of the specification\<close>

text \<open>
  A batch of states with leading dimensions \<open>sh\<close> is a tensor of shape \<open>sh @ [2]\<close>; its
  rows are the pairs \<open>(theta, omega)\<close>. \<open>of_pairs\<close> builds the tensor from the pairs and
  \<open>to_pairs\<close> reads the pairs of a tensor whose last axis has size 2.
\<close>

definition of_pairs :: "nat list \<Rightarrow> (real \<times> real) list \<Rightarrow> tensor" where
  "of_pairs sh ps = \<lparr>shape = sh @ [2], data = concat (map (\<lambda>p. [fst p, snd p]) ps)\<rparr>"

definition to_pairs :: "tensor \<Rightarrow> (real \<times> real) list" where
  "to_pairs t = map (\<lambda>r. (r ! 0, r ! 1)) (rows t)"

definition zeros :: "nat list \<Rightarrow> tensor" where
  "zeros sh = \<lparr>shape = sh, data = replicate (prod_list sh) 0\<rparr>"

definition vadd :: "real \<times> real \<Rightarrow> real \<times> real \<Rightarrow> real \<times> real" where
  "vadd x y = (fst x + fst y, snd x + snd y)"

definition vscale :: "real \<Rightarrow> real \<times> real \<Rightarrow> real \<times> real" where
  "vscale c x = (c * fst x, c * snd x)"

text \<open>The dynamics function of the specification:
  \<^verbatim>\<open>dTheta/dt = omega\<close>, \<^verbatim>\<open>dOmega/dt = -(g/L) * sin(theta)\<close>.\<close>

definition dynamics_spec :: "real \<Rightarrow> real \<Rightarrow> real \<times> real \<Rightarrow> real \<times> real" where
  "dynamics_spec gv lv x = (snd x, - (gv / lv) * sin (fst x))"

text \<open>The classical Runge-Kutta step of the specification, on one state.\<close>

definition rk4_spec :: "real \<Rightarrow> real \<Rightarrow> real \<Rightarrow> real \<times> real \<Rightarrow> real \<times> real" where
  "rk4_spec gv lv dt x =
     (let k1 = dynamics_spec gv lv x;
          k2 = dynamics_spec gv lv (vadd x (vscale (0.5 * dt) k1));
          k3 = dynamics_spec gv lv (vadd x (vscale (0.5 * dt) k2));
          k4 = dynamics_spec gv lv (vadd x (vscale dt k3))
      in vadd x (vscale (dt / 6) (vadd (vadd (vadd k1 (vscale 2 k2)) (vscale 2 k3)) k4)))"

section \<open>Parameter updates\<close>

lemma keys_update: "set (map fst (AList.update k v al)) = insert k (set (map fst al))"
  using AList.dom_update [of k v al] by simp

lemma hasattr_setattr:
  "setattr s key v = Inr s' \<Longrightarrow> hasattr s key \<Longrightarrow> hasattr s' k = hasattr s k"
  unfolding setattr_def hasattr_def
  by (auto simp add: keys_update simp del: set_map split: if_splits)

text \<open>A loop that ends without error changes no answer of \<open>hasattr\<close>.\<close>

lemma hasattr_set_params_loop:
  "set_params_loop s kw = (Inr (), s') \<Longrightarrow> hasattr s' k = hasattr s k"
proof (induction kw arbitrary: s)
  case Nil
  then show ?case by simp
next
  case (Cons p kw)
  obtain key v where p: "p = (key, v)" by (cases p)
  from Cons.prems p have h: "hasattr s key"
    by (auto split: if_splits)
  with Cons.prems p obtain s1
    where s1: "setattr s key v = Inr s1" and r: "set_params_loop s1 kw = (Inr (), s')"
    by (auto split: sum.splits)
  from Cons.IH [OF r] hasattr_setattr [OF s1 h] show ?case by simp
qed

text \<open>The loop over a list of keyword arguments continues where a prefix of it ended.\<close>

lemma set_params_loop_append:
  "set_params_loop s pre = (Inr (), s1)
   \<Longrightarrow> set_params_loop s (pre @ kw) = set_params_loop s1 kw"
proof (induction pre arbitrary: s)
  case Nil
  then show ?case by simp
next
  case (Cons p pre)
  obtain key v where p: "p = (key, v)" by (cases p)
  from Cons.prems p have h: "hasattr s key"
    by (auto split: if_splits)
  with Cons.prems p obtain s2
    where s2: "setattr s key v = Inr s2" and r: "set_params_loop s2 pre = (Inr (), s1)"
    by (auto split: sum.splits)
  from Cons.IH [OF r] show ?case using p h s2 by simp
qed

lemma getattr_setattr_same:
  "setattr s key v = Inr s' \<Longrightarrow> getattr s' key = Some v"
  by (auto simp: setattr_def getattr_def update_Some_unfold split: if_splits)

lemma getattr_setattr_other:
  "setattr s key v = Inr s' \<Longrightarrow> k \<noteq> key \<Longrightarrow> getattr s' k = getattr s k"
  by (auto simp: setattr_def getattr_def update_conv' split: if_splits)

lemma getattr_set_params_loop_other:
  "set_params_loop s kw = (Inr (), s') \<Longrightarrow> k \<notin> set (map fst kw)
   \<Longrightarrow> getattr s' k = getattr s k"
proof (induction kw arbitrary: s)
  case Nil
  then show ?case by simp
next
  case (Cons p kw)
  obtain key v where p: "p = (key, v)" by (cases p)
  from Cons.prems p have h: "hasattr s key"
    by (auto split: if_splits)
  with Cons.prems p obtain s1
    where s1: "setattr s key v = Inr s1" and r: "set_params_loop s1 kw = (Inr (), s')"
    by (auto split: sum.splits)
  from Cons.prems p have "k \<noteq> key" "k \<notin> set (map fst kw)" by auto
  with Cons.IH [OF r] getattr_setattr_other [OF s1] show ?case by simp
qed

text \<open>After a loop without error every attribute named holds the value given.\<close>

lemma getattr_set_params_loop:
  "set_params_loop s kw = (Inr (), s') \<Longrightarrow> distinct (map fst kw) \<Longrightarrow> (k, v) \<in> set kw
   \<Longrightarrow> getattr s' k = Some v"
proof (induction kw arbitrary: s)
  case Nil
  then show ?case by simp
next
  case (Cons p kw)
  obtain key w where p: "p = (key, w)" by (cases p)
  from Cons.prems p have h: "hasattr s key"
    by (auto split: if_splits)
  with Cons.prems p obtain s1
    where s1: "setattr s key w = Inr s1" and r: "set_params_loop s1 kw = (Inr (), s')"
    by (auto split: sum.splits)
  show ?case
  proof (cases "(k, v) \<in> set kw")
    case True
    with Cons.IH [OF r] Cons.prems show ?thesis by simp
  next
    case False
    with Cons.prems p have kv: "k = key" "v = w" by auto
    with Cons.prems p have "k \<notin> set (map fst kw)" by simp
    from getattr_set_params_loop_other [OF r this] getattr_setattr_same [OF s1] kv
    show ?thesis by simp
  qed
qed

lemma set_params_loop_fields_ok:
  "set (map fst kw) \<subseteq> set instance_fields \<Longrightarrow> fst (set_params_loop s kw) = Inr ()"
proof (induction kw arbitrary: s)
  case Nil
  then show ?case by simp
next
  case (Cons p kw)
  obtain key v where p: "p = (key, v)" by (cases p)
  from Cons.prems p have k: "key \<in> set instance_fields" by simp
  then have h: "hasattr s key" by (simp add: hasattr_def)
  from k obtain s1 where s1: "setattr s key v = Inr s1"
    by (auto simp: instance_fields_def setattr_def)
  from Cons.IH [of s1] Cons.prems show ?case using p h s1 by simp
qed

text \<open>The call: with no keyword named \<^verbatim>\<open>self\<close> the body runs on all the keyword
  arguments; with one, the call raises and the simulator is as before.\<close>

lemma set_params_binds:
  "''self'' \<notin> set (map fst kw) \<Longrightarrow> set_params s kw = set_params_loop s kw"
  by (simp add: set_params_def)

lemma set_params_self:
  "''self'' \<in> set (map fst kw) \<Longrightarrow> set_params s kw = (Inl TypeError, s)"
  by (simp add: set_params_def)

lemma fields_not_self:
  "set (map fst kw) \<subseteq> set instance_fields \<Longrightarrow> ''self'' \<notin> set (map fst kw)"
  by (auto simp: instance_fields_def)

lemma hasattr_init_nonexistent:
  "\<not> hasattr (PendulumSimulator_init dev) ''nonexistent''"
  by (simp add: PendulumSimulator_init_def hasattr_def instance_fields_def class_methods_def
      object_attrs_def)

text \<open>
  Claim C4, as stated: a key that names g, L or m is overwritten, and every other key
  makes \<open>set_params\<close> raise. The code tests \<^verbatim>\<open>hasattr(self, key)\<close>, and the simulator has
  a fourth attribute: the key \<^verbatim>\<open>device\<close> is none of g, L, m, yet
  \<^verbatim>\<open>set_params(device='cpu')\<close> returns normally with the device overwritten.
\<close>

theorem set_params_device_counterexample:
  "''device'' \<notin> {''g'', ''L'', ''m''}
   \<and> set_params (PendulumSimulator_init (PyStr ''mps'')) [(''device'', PyStr ''cpu'')]
       = (Inr (), (PendulumSimulator_init (PyStr ''mps''))\<lparr>device := PyStr ''cpu''\<rparr>)"
  by (simp add: set_params_def hasattr_def instance_fields_def setattr_def)

text \<open>
  Claim C4, amended. When every key of the mapping is one of the attributes the
  constructor sets (device, g, L, m), \<open>set_params\<close> returns normally and each of them
  holds the value given for it. When the keys before some key are such attributes, that
  key names no attribute of the simulator, and neither it nor a later key is \<^verbatim>\<open>self\<close>,
  \<open>set_params\<close> raises the ValueError whose message quotes that key. When some key is
  \<^verbatim>\<open>self\<close>, the call raises TypeError and the simulator is unchanged.
\<close>

theorem set_params_fields_or_error:
  "(distinct (map fst kw) \<and> set (map fst kw) \<subseteq> set instance_fields
      \<longrightarrow> fst (set_params s kw) = Inr ()
          \<and> (\<forall>(k, v) \<in> set kw. getattr (snd (set_params s kw)) k = Some v))
   \<and> (set (map fst pre) \<subseteq> set instance_fields \<and> \<not> hasattr s key
        \<and> ''self'' \<notin> set (map fst ((key, w) # post))
      \<longrightarrow> fst (set_params s (pre @ (key, w) # post)) = Inl (ValueError (invalid_msg key)))
   \<and> (''self'' \<in> set (map fst kw') \<longrightarrow> set_params s kw' = (Inl TypeError, s))"
proof (intro conjI impI)
  assume h: "distinct (map fst kw) \<and> set (map fst kw) \<subseteq> set instance_fields"
  then have f: "set (map fst kw) \<subseteq> set instance_fields"
    by (rule conjunct2)
  have b: "set_params s kw = set_params_loop s kw"
    by (rule set_params_binds [OF fields_not_self [OF f]])
  from h show ok: "fst (set_params s kw) = Inr ()"
    by (simp add: b set_params_loop_fields_ok)
  then have "set_params_loop s kw = (Inr (), snd (set_params s kw))"
    unfolding b by (metis prod.collapse)
  from getattr_set_params_loop [OF this] h
  show "\<forall>(k, v) \<in> set kw. getattr (snd (set_params s kw)) k = Some v"
    by auto
next
  assume h: "set (map fst pre) \<subseteq> set instance_fields \<and> \<not> hasattr s key
             \<and> ''self'' \<notin> set (map fst ((key, w) # post))"
  then have "''self'' \<notin> set (map fst (pre @ (key, w) # post))"
    using fields_not_self [of pre] by simp
  then have b: "set_params s (pre @ (key, w) # post) = set_params_loop s (pre @ (key, w) # post)"
    by (rule set_params_binds)
  from h have "fst (set_params_loop s pre) = Inr ()"
    by (simp add: set_params_loop_fields_ok)
  then have r: "set_params_loop s pre = (Inr (), snd (set_params_loop s pre))"
    by (metis prod.collapse)
  from h hasattr_set_params_loop [OF r] have "\<not> hasattr (snd (set_params_loop s pre)) key"
    by simp
  with set_params_loop_append [OF r]
  show "fst (set_params s (pre @ (key, w) # post)) = Inl (ValueError (invalid_msg key))"
    unfolding b by simp
next
  assume "''self'' \<in> set (map fst kw')"
  then show "set_params s kw' = (Inl TypeError, s)"
    by (rule set_params_self)
qed

theorem set_params_fields_or_error_witness:
  "fst (set_params (PendulumSimulator_init (PyStr ''mps''))
          [(''g'', PyFloat (162 / 100)), (''device'', PyStr ''cpu'')]) = Inr ()
   \<and> getattr (snd (set_params (PendulumSimulator_init (PyStr ''mps''))
          [(''g'', PyFloat (162 / 100)), (''device'', PyStr ''cpu'')])) ''g''
       = Some (PyFloat (162 / 100))
   \<and> getattr (snd (set_params (PendulumSimulator_init (PyStr ''mps''))
          [(''g'', PyFloat (162 / 100)), (''device'', PyStr ''cpu'')])) ''device''
       = Some (PyStr ''cpu'')
   \<and> \<not> hasattr (PendulumSimulator_init (PyStr ''mps'')) ''nonexistent''
   \<and> fst (set_params (PendulumSimulator_init (PyStr ''mps''))
          [(''g'', PyFloat (162 / 100)), (''nonexistent'', PyFloat 1)])
       = Inl (ValueError (invalid_msg ''nonexistent''))
   \<and> set_params (PendulumSimulator_init (PyStr ''mps''))
          [(''g'', PyFloat 2), (''self'', PyFloat 1)]
       = (Inl TypeError, PendulumSimulator_init (PyStr ''mps''))"
proof -
  let ?s = "PendulumSimulator_init (PyStr ''mps'')"
  have b: "\<not> hasattr ?s ''nonexistent''"
    by (rule hasattr_init_nonexistent)
  from set_params_fields_or_error
         [of "[(''g'', PyFloat (162 / 100)), (''device'', PyStr ''cpu'')]" ?s
             "[(''g'', PyFloat (162 / 100))]" "''nonexistent''" "PyFloat 1" "[]"
             "[(''g'', PyFloat 2), (''self'', PyFloat 1)]"] b
  show ?thesis
    by (simp add: instance_fields_def)
qed

text \<open>
  Claim C7: in a call that binds (no keyword is named \<^verbatim>\<open>self\<close>), when the keys before
  an offending key have been processed without error and the offending key names no
  attribute, \<open>set_params\<close> raises and leaves the simulator exactly as those earlier
  updates made it: nothing is rolled back, and (the keys of a mapping being distinct)
  each earlier key holds the value given for it.
\<close>

theorem set_params_no_rollback:
  assumes "set_params s pre = (Inr (), s1)" and "\<not> hasattr s key"
    and "''self'' \<notin> set (map fst (pre @ (key, v) # post))"
  shows "set_params s (pre @ (key, v) # post) = (Inl (ValueError (invalid_msg key)), s1)
         \<and> (distinct (map fst pre) \<longrightarrow> (\<forall>(k, w) \<in> set pre. getattr s1 k = Some w))"
proof -
  from assms(3) have "''self'' \<notin> set (map fst pre)" by simp
  with assms(1) have r: "set_params_loop s pre = (Inr (), s1)"
    by (simp add: set_params_binds)
  from assms(3) have b: "set_params s (pre @ (key, v) # post)
                         = set_params_loop s (pre @ (key, v) # post)"
    by (rule set_params_binds)
  from assms(2) have "\<not> hasattr s1 key"
    by (simp add: hasattr_set_params_loop [OF r])
  with set_params_loop_append [OF r]
  have "set_params s (pre @ (key, v) # post) = (Inl (ValueError (invalid_msg key)), s1)"
    unfolding b by simp
  moreover have "distinct (map fst pre) \<longrightarrow> (\<forall>(k, w) \<in> set pre. getattr s1 k = Some w)"
    using getattr_set_params_loop [OF r] by auto
  ultimately show ?thesis by simp
qed

theorem set_params_no_rollback_witness:
  "set_params (PendulumSimulator_init (PyStr ''mps'')) [(''L'', PyFloat 2)]
     = (Inr (), (PendulumSimulator_init (PyStr ''mps''))\<lparr>L := PyFloat 2\<rparr>)
   \<and> \<not> hasattr (PendulumSimulator_init (PyStr ''mps'')) ''nonexistent''
   \<and> ''self'' \<notin> set (map fst [(''L'', PyFloat 2), (''nonexistent'', PyFloat 1),
                                 (''m'', PyFloat 3)])
   \<and> set_params (PendulumSimulator_init (PyStr ''mps''))
        [(''L'', PyFloat 2), (''nonexistent'', PyFloat 1), (''m'', PyFloat 3)]
       = (Inl (ValueError (invalid_msg ''nonexistent'')),
          (PendulumSimulator_init (PyStr ''mps''))\<lparr>L := PyFloat 2\<rparr>)
   \<and> getattr ((PendulumSimulator_init (PyStr ''mps''))\<lparr>L := PyFloat 2\<rparr>) ''L''
       = Some (PyFloat 2)
   \<and> L (PendulumSimulator_init (PyStr ''mps'')) = PyFloat 1"
proof -
  let ?s = "PendulumSimulator_init (PyStr ''mps'')"
  have a: "set_params ?s [(''L'', PyFloat 2)] = (Inr (), ?s\<lparr>L := PyFloat 2\<rparr>)"
    by (simp add: set_params_def hasattr_def instance_fields_def setattr_def)
  have b: "\<not> hasattr ?s ''nonexistent''"
    by (rule hasattr_init_nonexistent)
  have c: "''self'' \<notin> set (map fst ([(''L'', PyFloat 2)]
             @ (''nonexistent'', PyFloat 1) # [(''m'', PyFloat 3)]))"
    by simp
  from set_params_no_rollback [OF a b c] a b c
  show ?thesis
    by (simp add: PendulumSimulator_init_def)
qed

section \<open>The energy\<close>

text \<open>\<open>compute_energy\<close> returns for no simulator and no tensor: every path ends in an
  exception.\<close>

lemma compute_energy_never_returns: "compute_energy s states \<noteq> Inr E"
  by (cases "m s"; cases "L s"; cases "g s")
     (simp_all add: compute_energy_def bind_result_def select_last_def)

text \<open>
  Claim C2 says that \<open>compute_energy\<close> returns
  \<open>0.5*m*(L*omega)^2 + m*g*L*(1-cos(theta))\<close>. On the simulator as constructed and the
  state \<open>[theta, omega]\<close> the code raises TypeError instead, at the call
  \<^verbatim>\<open>self.L(...)\<close> of a float, and so returns no energy.
\<close>

theorem compute_energy_raises:
  "compute_energy (PendulumSimulator_init dev) \<lparr>shape = [2], data = [theta, omega]\<rparr>
     = Inl TypeError
   \<and> compute_energy (PendulumSimulator_init dev) \<lparr>shape = [2], data = [theta, omega]\<rparr>
     \<noteq> Inr \<lparr>shape = [], data = [energy_spec 1 (981 / 100) 1 theta omega]\<rparr>"
  by (simp add: compute_energy_def bind_result_def select_last_def PendulumSimulator_init_def)

section \<open>Initial states that are not tensors\<close>

lemma simulate_not_tensor: "simulate s (Other x) duration dt return_tensor = Inl TypeError"
  by (simp add: simulate_def torch_Tensor_def bind_result_def)

text \<open>
  Claim C3 says that an initial state that is not a tensor is converted, so that the
  list \<open>[0.1, 0.0]\<close> is accepted. The conversion is written
  \<^verbatim>\<open>torch.Tensor(initial_state, dtype=torch.float32, device=self.device)\<close>, and the keyword
  \<^verbatim>\<open>dtype\<close> makes that call raise TypeError: the list is rejected.
\<close>

theorem simulate_list_raises:
  "simulate (PendulumSimulator_init (PyStr ''mps'')) (Other (PySeq [PyNum (1 / 10), PyNum 0]))
     1 (1 / 100) True = Inl TypeError"
  by (simp add: simulate_def torch_Tensor_def bind_result_def)

section \<open>Rows of a tensor\<close>

lemma length_chunk: "length (chunk n w xs) = n"
  by (induction n arbitrary: xs) simp_all

lemma chunk_concat:
  "length rs = n \<Longrightarrow> \<forall>r \<in> set rs. length r = w \<Longrightarrow> chunk n w (concat rs) = rs"
proof (induction rs arbitrary: n)
  case Nil
  then show ?case by simp
next
  case (Cons r rs)
  then obtain k where n: "n = Suc k" and k: "length rs = k" by (cases n) auto
  from Cons.prems have "length r = w" "\<forall>r \<in> set rs. length r = w" by simp_all
  with Cons.IH [OF k] n show ?case by simp
qed

lemma concat_chunk: "length xs = n * w \<Longrightarrow> concat (chunk n w xs) = xs"
proof (induction n arbitrary: xs)
  case 0
  then show ?case by simp
next
  case (Suc n)
  then have "length (drop w xs) = n * w" by simp
  from Suc.IH [OF this] show ?case by simp
qed

lemma chunk_row_length:
  "length xs = n * w \<Longrightarrow> r \<in> set (chunk n w xs) \<Longrightarrow> length r = w"
proof (induction n arbitrary: xs)
  case 0
  then show ?case by simp
next
  case (Suc n)
  then have l: "length (drop w xs) = n * w" by simp
  from Suc.prems have "r = take w xs \<or> r \<in> set (chunk n w (drop w xs))" by simp
  then show ?case
  proof
    assume "r = take w xs"
    with Suc.prems show ?thesis by simp
  next
    assume "r \<in> set (chunk n w (drop w xs))"
    with Suc.IH [OF l] show ?thesis by simp
  qed
qed

lemma rows_of_pairs:
  "length ps = prod_list sh \<Longrightarrow> rows (of_pairs sh ps) = map (\<lambda>p. [fst p, snd p]) ps"
  by (simp add: rows_def of_pairs_def chunk_concat)

lemma rows_column:
  "length xs = prod_list sh \<Longrightarrow> rows \<lparr>shape = sh @ [1], data = xs\<rparr> = map (\<lambda>x. [x]) xs"
proof -
  assume l: "length xs = prod_list sh"
  have "chunk (prod_list sh) 1 (concat (map (\<lambda>x. [x]) xs)) = map (\<lambda>x. [x]) xs"
    by (rule chunk_concat) (simp_all add: l)
  then show ?thesis by (simp add: rows_def)
qed

lemma wf_of_pairs: "length ps = prod_list sh \<Longrightarrow> wf_tensor (of_pairs sh ps)"
  by (simp add: wf_tensor_def of_pairs_def length_concat comp_def sum_list_triv)

lemma pair_row: "length r = 2 \<Longrightarrow> [r ! 0, r ! Suc 0] = r"
  by (cases r; cases "tl r") auto

lemma of_pairs_to_pairs:
  assumes "wf_tensor t" and "shape t = sh @ [2]"
  shows "of_pairs sh (to_pairs t) = t" and "length (to_pairs t) = prod_list sh"
proof -
  from assms have l: "length (data t) = prod_list sh * 2"
    by (simp add: wf_tensor_def)
  have r: "rows t = chunk (prod_list sh) 2 (data t)"
    by (simp add: rows_def assms(2))
  show "length (to_pairs t) = prod_list sh"
    by (simp add: to_pairs_def r length_chunk)
  have "map (\<lambda>p. [fst p, snd p]) (to_pairs t) = map (\<lambda>r. [r ! 0, r ! Suc 0]) (rows t)"
    by (simp add: to_pairs_def comp_def)
  also have "\<dots> = map (\<lambda>r. r) (rows t)"
    by (rule map_cong) (simp_all add: r pair_row chunk_row_length [OF l])
  finally have "concat (map (\<lambda>p. [fst p, snd p]) (to_pairs t)) = data t"
    by (simp add: r concat_chunk [OF l])
  then show "of_pairs sh (to_pairs t) = t"
    by (simp add: of_pairs_def assms(2))
qed

lemma to_pairs_single: "to_pairs \<lparr>shape = [2], data = [a, b]\<rparr> = [(a, b)]"
  by (simp add: to_pairs_def rows_def)

lemma wf_single: "wf_tensor \<lparr>shape = [2], data = [a, b]\<rparr>"
  by (simp add: wf_tensor_def)

lemma promote_of_pairs:
  "promote (of_pairs sh ps) = of_pairs (if sh = [] then [1] else sh) ps"
  by (simp add: promote_def tensor_dim_def of_pairs_def unsqueeze0_def)

lemma promote_single:
  "promote \<lparr>shape = [2], data = [a, b]\<rparr> = \<lparr>shape = [1, 2], data = [a, b]\<rparr>"
  by (simp add: promote_def tensor_dim_def unsqueeze0_def)

lemma wf_promote_of_pairs:
  "length ps = prod_list sh \<Longrightarrow> wf_tensor (promote (of_pairs sh ps))"
  by (simp add: promote_of_pairs wf_of_pairs)

lemma shape_promote_of_pairs:
  "shape (promote (of_pairs sh ps)) = shape (promote (of_pairs sh qs))"
  unfolding promote_of_pairs by (simp add: of_pairs_def)

section \<open>The step on a batch of states\<close>

lemma slice_theta:
  "length ps = prod_list sh \<Longrightarrow>
   slice_last (of_pairs sh ps) 0 1 = Inr \<lparr>shape = sh @ [1], data = map fst ps\<rparr>"
  by (simp add: slice_last_def rows_of_pairs) (simp add: of_pairs_def comp_def)

lemma slice_omega:
  "length ps = prod_list sh \<Longrightarrow>
   slice_last (of_pairs sh ps) 1 2 = Inr \<lparr>shape = sh @ [1], data = map snd ps\<rparr>"
  by (simp add: slice_last_def rows_of_pairs) (simp add: of_pairs_def comp_def)

lemma cat_columns:
  assumes "length xs = prod_list sh" and "length ys = prod_list sh"
  shows "cat_last \<lparr>shape = sh @ [1], data = xs\<rparr> \<lparr>shape = sh @ [1], data = ys\<rparr>
         = Inr (of_pairs sh (zip xs ys))"
proof -
  have "map2 (\<lambda>r r'. r @ r') (map (\<lambda>x. [x]) xs) (map (\<lambda>x. [x]) ys)
        = map (\<lambda>p. [fst p, snd p]) (zip xs ys)"
    by (simp add: zip_map_map case_prod_beta)
  with rows_column [OF assms(1)] rows_column [OF assms(2)] show ?thesis
    by (simp add: cat_last_def of_pairs_def)
qed

lemma dynamics_of_pairs:
  assumes "g s = PyFloat gv" and "L s = PyFloat lv" and "lv \<noteq> 0"
    and "length ps = prod_list sh"
  shows "dynamics s (of_pairs sh ps) t = Inr (of_pairs sh (map (dynamics_spec gv lv) ps))"
proof -
  have z: "zip (map snd ps) (map (\<lambda>x. - (gv / lv) * sin x) (map fst ps))
           = map (dynamics_spec gv lv) ps"
    by (induction ps) (simp_all add: dynamics_spec_def)
  have c: "cat_last \<lparr>shape = sh @ [1], data = map snd ps\<rparr>
          \<lparr>shape = sh @ [1], data = map (\<lambda>x. - (gv / lv) * sin x) (map fst ps)\<rparr>
        = Inr (of_pairs sh (map (dynamics_spec gv lv) ps))"
    unfolding z [symmetric]
    by (rule cat_columns) (simp_all add: assms(4))
  have d: "scale (- (gv / lv)) (torch_sin \<lparr>shape = sh @ [1], data = map fst ps\<rparr>)
           = \<lparr>shape = sh @ [1], data = map (\<lambda>x. - (gv / lv) * sin x) (map fst ps)\<rparr>"
    by (simp add: scale_def torch_sin_def tmap_def)
  have q: "py_truediv (g s) (L s) = Inr (gv / lv)"
    by (simp add: assms)
  show ?thesis
    unfolding dynamics_def slice_theta [OF assms(4)] slice_omega [OF assms(4)] q
    by (simp only: bind_result_def sum.case Let_def d c)
qed

lemma scale_of_pairs: "scale c (of_pairs sh ps) = of_pairs sh (map (vscale c) ps)"
  by (simp add: scale_def tmap_def of_pairs_def map_concat comp_def vscale_def)

lemma add_rows:
  "length ps = length qs \<Longrightarrow>
   map2 (\<lambda>x y. x + y) (concat (map (\<lambda>p. [fst p, snd p]) ps))
     (concat (map (\<lambda>p. [fst p, snd p]) qs))
   = concat (map (\<lambda>p. [fst p, snd p]) (map2 vadd ps qs))"
  by (induction ps qs rule: list_induct2) (simp_all add: vadd_def)

lemma tadd_of_pairs:
  "length ps = length qs \<Longrightarrow>
   tadd (of_pairs sh ps) (of_pairs sh qs) = Inr (of_pairs sh (map2 vadd ps qs))"
  by (simp add: tadd_def of_pairs_def add_rows)

lemma map2_same: "map2 h (map a ps) (map b ps) = map (\<lambda>p. h (a p) (b p)) ps"
  by (induction ps) simp_all

lemma rk4_step_of_pairs:
  assumes gl: "g s = PyFloat gv" "L s = PyFloat lv" "lv \<noteq> 0"
    and nd: "''dynamics'' \<notin> set (map fst (extra s))"
    and len: "length ps = prod_list sh"
  shows "rk4_step s (of_pairs sh ps) dt = Inr (of_pairs sh (map (rk4_spec gv lv dt) ps))"
proof -
  let ?f = "dynamics_spec gv lv"
  let ?T = "\<lambda>F. of_pairs sh (map F ps)"
  have dyn: "call_method s ''dynamics'' (dynamics s (?T F) 0) = Inr (?T (\<lambda>p. ?f (F p)))" for F
    using dynamics_of_pairs [OF gl, of "map F ps" sh 0] nd len
    by (simp add: call_method_def comp_def)
  have add: "tadd (?T F) (?T G) = Inr (?T (\<lambda>p. vadd (F p) (G p)))" for F G
    using tadd_of_pairs [of "map F ps" "map G ps" sh] by (simp add: map2_same)
  have sc: "scale c (?T F) = ?T (\<lambda>p. vscale c (F p))" for c F
    by (simp add: scale_of_pairs comp_def)
  have st: "of_pairs sh ps = ?T (\<lambda>p. p)" by simp
  have "rk4_step s (?T (\<lambda>p. p)) dt = Inr (?T (rk4_spec gv lv dt))"
    unfolding rk4_step_def
    apply (simp only: dyn add sc bind_result_def sum.case)
    apply (simp only: rk4_spec_def [abs_def] Let_def)
    done
  then show ?thesis by simp
qed

lemma params_init:
  "g (PendulumSimulator_init dev) = PyFloat (981 / 100)"
  "L (PendulumSimulator_init dev) = PyFloat 1"
  "m (PendulumSimulator_init dev) = PyFloat 1"
  "device (PendulumSimulator_init dev) = dev"
  "extra (PendulumSimulator_init dev) = []"
  by (simp_all add: PendulumSimulator_init_def)

text \<open>
  Claim C5: for a simulator whose g and L are numbers with L not zero (and whose method
  \<^verbatim>\<open>dynamics\<close> has not been overwritten), and a batch of states of any leading
  dimensions, \<open>dynamics\<close> maps every state \<open>[theta, omega]\<close> to
  \<open>[omega, -(g/L)*sin(theta)]\<close> whatever its time argument, and \<open>rk4_step\<close> returns for
  every state \<open>state + (dt/6)*(k1 + 2*k2 + 2*k3 + k4)\<close> with the four slopes of the
  classical scheme.
\<close>

theorem rk4_step_is_classical_rk4:
  assumes "g s = PyFloat gv" and "L s = PyFloat lv" and "lv \<noteq> 0"
    and "''dynamics'' \<notin> set (map fst (extra s))"
    and "wf_tensor state" and "shape state = sh @ [2]"
  shows "dynamics s state t = Inr (of_pairs sh (map (dynamics_spec gv lv) (to_pairs state)))
       \<and> rk4_step s state dt = Inr (of_pairs sh (map (rk4_spec gv lv dt) (to_pairs state)))"
proof -
  note tp = of_pairs_to_pairs [OF assms(5) assms(6)]
  from dynamics_of_pairs [OF assms(1-3) tp(2), of t]
       rk4_step_of_pairs [OF assms(1-4) tp(2), of dt]
  show ?thesis by (simp add: tp(1))
qed

theorem rk4_step_is_classical_rk4_witness:
  "dynamics (PendulumSimulator_init (PyStr ''mps'')) \<lparr>shape = [2], data = [0, 1]\<rparr> 5
     = Inr \<lparr>shape = [2], data = [1, 0]\<rparr>
   \<and> rk4_step (PendulumSimulator_init (PyStr ''mps'')) \<lparr>shape = [2], data = [0, 1]\<rparr> (1 / 100)
     = Inr (of_pairs [] [rk4_spec (981 / 100) 1 (1 / 100) (0, 1)])"
proof -
  let ?s = "PendulumSimulator_init (PyStr ''mps'')"
  have "(1::real) \<noteq> 0" by simp
  moreover have "''dynamics'' \<notin> set (map fst (extra ?s))" by (simp add: params_init)
  moreover have "shape \<lparr>shape = [2], data = [0, 1]\<rparr> = [] @ [2]" by simp
  ultimately show ?thesis
    using rk4_step_is_classical_rk4 [of ?s "981 / 100" 1 "\<lparr>shape = [2], data = [0, 1]\<rparr>" "[]"
        5 "1 / 100"]
    by (simp add: params_init wf_single to_pairs_single dynamics_spec_def of_pairs_def)
qed

section \<open>The rounded quotient\<close>

lemma floor_log2_eq:
  "0 < x \<Longrightarrow> 2 powi k \<le> x \<Longrightarrow> x < 2 powi (k + 1) \<Longrightarrow> \<lfloor>log 2 x\<rfloor> = k"
  using floor_log_eq_powr_iff [of x 2 k] powr_real_of_int' [of 2 k]
    powr_real_of_int' [of 2 "k + 1"]
  by simp


lemma round_half_even_ge: "of_int j \<le> x \<Longrightarrow> j \<le> round_half_even x"
proof -
  assume "of_int j \<le> x"
  then have "j \<le> \<lfloor>x\<rfloor>" by (simp add: le_floor_iff)
  then show ?thesis by (simp add: round_half_even_def Let_def)
qed

text \<open>Rounding does not pass below a multiple of the unit of the binade that lies below
  the number.\<close>

lemma round_double_ge_multiple:
  assumes "round_double x = Some y" and "x \<noteq> 0"
    and "of_int j * 2 powi (double_exponent x - 52) \<le> x"
  shows "of_int j * 2 powi (double_exponent x - 52) \<le> y"
proof -
  let ?u = "(2::real) powi (double_exponent x - 52)"
  have u: "0 < ?u" by (simp add: zero_less_power_int)
  from assms(1,2) have y: "y = of_int (round_half_even (x / ?u)) * ?u"
    by (simp add: round_double_def Let_def split: if_splits)
  from assms(3) u have "of_int j \<le> x / ?u"
    by (simp add: pos_le_divide_eq)
  then have "j \<le> round_half_even (x / ?u)" by (rule round_half_even_ge)
  then have "(of_int j :: real) \<le> of_int (round_half_even (x / ?u))" by simp
  with u show ?thesis unfolding y by (simp add: mult_right_mono)
qed

lemma round_double_nonneg:
  assumes "round_double x = Some y" and "0 \<le> x"
  shows "0 \<le> y"
proof (cases "x = 0")
  case True
  with assms show ?thesis by (simp add: round_double_def)
next
  case False
  from round_double_ge_multiple [OF assms(1) False, of 0] assms(2) show ?thesis by simp
qed


text \<open>Below \<open>2^53\<close> every integer is a double, so the rounded quotient is not below the
  integer part of the exact one.\<close>

lemma round_double_ge_floor:
  assumes "round_double x = Some y" and "0 < x" and "x < 2 ^ 53"
  shows "of_int \<lfloor>x\<rfloor> \<le> y"
proof -
  let ?e = "double_exponent x"
  have "log 2 x < 53"
    using assms(2,3) by (simp add: log_less_iff powr_realpow [symmetric])
  then have "\<lfloor>log 2 x\<rfloor> < 53" by (simp add: floor_less_iff)
  then have e: "?e \<le> 52"
    using assms(2) by (simp add: double_exponent_def)
  have "(2::real) powi (52 - ?e) * 2 powi (?e - 52) = 1"
    by (simp add: power_int_add [symmetric])
  moreover have "(2::real) powi (52 - ?e) = of_int (2 ^ nat (52 - ?e))"
    using e by (simp add: power_int_def)
  ultimately have one: "of_int (2 ^ nat (52 - ?e)) * 2 powi (?e - 52) = (1::real)"
    by simp
  have "of_int (\<lfloor>x\<rfloor> * 2 ^ nat (52 - ?e)) * 2 powi (?e - 52)
        = (of_int \<lfloor>x\<rfloor> :: real) * (of_int (2 ^ nat (52 - ?e)) * 2 powi (?e - 52))"
    by (simp add: mult.assoc)
  also have "\<dots> = of_int \<lfloor>x\<rfloor>"
    unfolding one by simp
  finally have m: "of_int (\<lfloor>x\<rfloor> * 2 ^ nat (52 - ?e)) * 2 powi (?e - 52)
                   = (of_int \<lfloor>x\<rfloor> :: real)" .
  have "of_int (\<lfloor>x\<rfloor> * 2 ^ nat (52 - ?e)) * 2 powi (?e - 52) \<le> x"
    unfolding m by simp
  from round_double_ge_multiple [OF assms(1) _ this] assms(2) show ?thesis
    unfolding m by simp
qed

lemma steps_ge_floor:
  assumes "round_double x = Some y" and "0 < x" and "x < 2 ^ 53"
  shows "nat \<lfloor>x\<rfloor> \<le> nat \<lfloor>y\<rfloor>"
proof -
  from round_double_ge_floor [OF assms] have "\<lfloor>x\<rfloor> \<le> \<lfloor>y\<rfloor>"
    by (simp add: le_floor_iff)
  then show ?thesis by simp
qed

text \<open>Three quotients: 100 and 1/2 are doubles; the quotient of the doubles 1.0 and 0.01
  (the double nearest to 1/100 is \<open>5764607523034235 / 2^59\<close>) is below 100 and is
  rounded to 100.\<close>

lemma round_double_100: "round_double 100 = Some 100"
proof -
  have "\<lfloor>log 2 (100::real)\<rfloor> = 6"
    by (rule floor_log2_eq) simp_all
  then have "double_exponent 100 = 6" by (simp add: double_exponent_def)
  then show ?thesis
    by (simp add: round_double_def round_half_even_def Let_def)
qed



section \<open>Entries of the trajectory\<close>

lemma block_same:
  assumes "i * sz + sz \<le> length xs" and "length blk = sz"
  shows "take sz (drop (i * sz) (take (i * sz) xs @ blk @ drop ((i + 1) * sz) xs)) = blk"
proof -
  from assms have "length (take (i * sz) xs) = i * sz" by simp
  then show ?thesis using assms(2) by simp
qed

lemma block_before:
  assumes "j < i" and "i * sz \<le> length xs"
  shows "take sz (drop (j * sz) (take (i * sz) xs @ rest)) = take sz (drop (j * sz) xs)"
proof -
  from assms(1) have "Suc j \<le> i" by simp
  then have "Suc j * sz \<le> i * sz" by (rule mult_le_mono1)
  then have le: "j * sz + sz \<le> i * sz" by simp
  with assms(2) have l: "length (take (i * sz) xs) = i * sz" by simp
  have "take sz (drop (j * sz) (take (i * sz) xs @ rest))
        = take sz (drop (j * sz) (take (i * sz) xs))"
    using le l by simp
  also have "\<dots> = take sz (drop (j * sz) xs)"
    using le by (simp add: drop_take min_def)
  finally show ?thesis .
qed

lemma setitem0_ok:
  assumes "shape t = N # sh" and "length (data t) = N * prod_list sh" and "i < N"
    and "shape v = sh" and "length (data v) = prod_list sh"
  shows "\<exists>t'. setitem0 t i v = Inr t' \<and> shape t' = shape t
           \<and> length (data t') = length (data t)
           \<and> getitem0 t' i = Inr v
           \<and> (\<forall>j < i. getitem0 t' j = getitem0 t j)"
proof -
  let ?sz = "prod_list sh"
  define rest where "rest = data v @ drop ((i + 1) * ?sz) (data t)"
  define t' where "t' = t\<lparr>data := take (i * ?sz) (data t) @ rest\<rparr>"
  have sh': "shape t' = shape t" and d': "data t' = take (i * ?sz) (data t) @ rest"
    by (simp_all add: t'_def)
  from assms(3) have "Suc i \<le> N" by simp
  then have "Suc i * ?sz \<le> N * ?sz" by (rule mult_le_mono1)
  then have le: "i * ?sz + ?sz \<le> length (data t)" by (simp add: assms(2))
  then have le': "i * ?sz \<le> length (data t)" by simp
  have s: "setitem0 t i v = Inr t'"
    using assms by (simp add: setitem0_def Let_def t'_def rest_def)
  have len: "length (data t') = length (data t)"
    using le assms(5) by (simp add: d' rest_def)
  have "take ?sz (drop (i * ?sz) (data t')) = data v"
    unfolding d' rest_def by (rule block_same [OF le assms(5)])
  then have same: "getitem0 t' i = Inr v"
    using assms by (simp add: getitem0_def Let_def sh')
  have before: "getitem0 t' j = getitem0 t j" if "j < i" for j
  proof -
    have "take ?sz (drop (j * ?sz) (data t')) = take ?sz (drop (j * ?sz) (data t))"
      unfolding d' by (rule block_before [OF that le'])
    then show ?thesis
      using assms(1) by (simp add: getitem0_def Let_def sh')
  qed
  from s sh' len same before show ?thesis
    by (intro exI [of _ t']) simp
qed

lemma upt_step: "[a..<a + Suc k] = a # [Suc a..<Suc a + k]"
  by (simp add: upt_conv_Cons)

lemma simulate_loop_entries:
  assumes gl: "g s = PyFloat gv" "L s = PyFloat lv" "lv \<noteq> 0"
    and nd: "''dynamics'' \<notin> set (map fst (extra s))"
    and nr: "''rk4_step'' \<notin> set (map fst (extra s))"
  shows "shape traj = N # sh @ [2] \<Longrightarrow> length (data traj) = N * prod_list (sh @ [2])
    \<Longrightarrow> length ps = prod_list sh \<Longrightarrow> a + k < N
    \<Longrightarrow> \<exists>traj'. simulate_loop s dt [a..<a + k] (of_pairs sh ps) traj = Inr traj'
          \<and> shape traj' = shape traj \<and> length (data traj') = length (data traj)
          \<and> (\<forall>j \<le> a. getitem0 traj' j = getitem0 traj j)
          \<and> (\<forall>j < k. getitem0 traj' (a + 1 + j)
                        = Inr (of_pairs sh (map (rk4_spec gv lv dt ^^ (j + 1)) ps)))"
proof (induction k arbitrary: a ps traj)
  case 0
  then show ?case by simp
next
  case (Suc k)
  let ?F = "rk4_spec gv lv dt"
  let ?st = "of_pairs sh (map ?F ps)"
  have step: "call_method s ''rk4_step'' (rk4_step s (of_pairs sh ps) dt) = Inr ?st"
    using rk4_step_of_pairs [OF gl nd Suc.prems(3)] nr by (simp add: call_method_def)
  have shst: "shape ?st = sh @ [2]" by (simp add: of_pairs_def)
  have lst: "length (data ?st) = prod_list (sh @ [2])"
    using wf_of_pairs [of "map ?F ps" sh] Suc.prems(3) by (simp add: wf_tensor_def shst)
  from Suc.prems(4) have a1: "a + 1 < N" by simp
  from setitem0_ok [OF Suc.prems(1) Suc.prems(2) a1 shst lst]
  obtain t1 where t1: "setitem0 traj (a + 1) ?st = Inr t1"
    and sh1: "shape t1 = shape traj" and l1: "length (data t1) = length (data traj)"
    and g1: "getitem0 t1 (a + 1) = Inr ?st"
    and b1: "\<forall>j < a + 1. getitem0 t1 j = getitem0 traj j"
    by blast
  have p1: "shape t1 = N # sh @ [2]" using sh1 Suc.prems(1) by simp
  have p2: "length (data t1) = N * prod_list (sh @ [2])" using l1 Suc.prems(2) by simp
  have p3: "length (map ?F ps) = prod_list sh" using Suc.prems(3) by simp
  have p4: "Suc a + k < N" using Suc.prems(4) by simp
  from Suc.IH [OF p1 p2 p3 p4]
  obtain t2 where r: "simulate_loop s dt [Suc a..<Suc a + k] ?st t1 = Inr t2"
    and sh2: "shape t2 = shape t1" and l2: "length (data t2) = length (data t1)"
    and b2: "\<forall>j \<le> Suc a. getitem0 t2 j = getitem0 t1 j"
    and e2: "\<forall>j < k. getitem0 t2 (Suc a + 1 + j)
                      = Inr (of_pairs sh (map (?F ^^ (j + 1)) (map ?F ps)))"
    by blast
  have run: "simulate_loop s dt [a..<a + Suc k] (of_pairs sh ps) traj = Inr t2"
    unfolding upt_step using step t1 r by (simp add: bind_result_def)
  have before: "\<forall>j \<le> a. getitem0 t2 j = getitem0 traj j"
    using b1 b2 by simp
  have entries: "getitem0 t2 (a + 1 + j) = Inr (of_pairs sh (map (?F ^^ (j + 1)) ps))"
    if "j < Suc k" for j
  proof (cases j)
    case 0
    with b2 g1 show ?thesis by simp
  next
    case (Suc i)
    with that have "i < k" by simp
    with e2 have e: "getitem0 t2 (Suc a + 1 + i)
                     = Inr (of_pairs sh (map (?F ^^ (i + 1)) (map ?F ps)))" by blast
    have "(?F ^^ (i + 1)) \<circ> ?F = ?F ^^ (Suc i + 1)"
      by (rule ext) (simp add: funpow_swap1)
    then have m: "map (?F ^^ (i + 1)) (map ?F ps) = map (?F ^^ (Suc i + 1)) ps"
      by (simp only: map_map)
    have idx: "a + 1 + Suc i = Suc a + 1 + i" by simp
    show ?thesis
      by (simp only: Suc idx e m)
  qed
  have sh: "shape t2 = shape traj" using sh2 sh1 by simp
  have ln: "length (data t2) = length (data traj)" using l2 l1 by simp
  from run sh ln before entries show ?case by blast
qed

lemma py_int_nonneg: "0 \<le> x \<Longrightarrow> py_int x = int (nat \<lfloor>x\<rfloor>)"
  by (simp add: py_int_def)

lemma torch_zeros_nat:
  "torch_zeros (map int dims) (PyStr d) = Inr (zeros dims)"
proof -
  have "\<not> list_ex (\<lambda>k. k < 0) (map int dims)"
    by (simp add: list_ex_iff)
  moreover have "map nat (map int dims) = dims"
    by (simp add: comp_def)
  ultimately show ?thesis
    by (simp add: torch_zeros_def zeros_def)
qed

lemma getitem0_zeros: "getitem0 (zeros (Suc n # sh)) 0 = Inr (zeros sh)"
  by (simp add: getitem0_def zeros_def Let_def min_def)

lemma torch_linspace_ok:
  "\<exists>times. torch_linspace a b (int n + 1) (PyStr d) = Inr times"
  by (simp add: torch_linspace_def)

lemma simulate_entries:
  assumes gl: "g s = PyFloat gv" "L s = PyFloat lv" "lv \<noteq> 0"
    and nd: "''dynamics'' \<notin> set (map fst (extra s))"
    and nr: "''rk4_step'' \<notin> set (map fst (extra s))"
    and dev: "device s = PyStr d"
    and pos: "0 < duration" "0 < dt"
    and len: "length ps = prod_list sh"
    and fq: "round_double (duration / dt) = Some fq"
    and n: "n = nat \<lfloor>fq\<rfloor>"
  shows "\<exists>times traj.
           simulate s (TorchTensor (of_pairs sh ps)) duration dt return_tensor = Inr (times, traj)
         \<and> torch_linspace 0 duration (int n + 1) (PyStr d) = Inr times
         \<and> shape traj = (n + 1) # shape (promote (of_pairs sh ps))
         \<and> length (data traj) = (n + 1) * prod_list (shape (promote (of_pairs sh ps)))
         \<and> getitem0 traj 0 = Inr (zeros (shape (promote (of_pairs sh ps))))
         \<and> (\<forall>j < n. getitem0 traj (j + 1)
               = Inr (promote (of_pairs sh (map (rk4_spec gv lv dt ^^ (j + 1)) ps))))"
proof -
  define sh' where "sh' = (if sh = [] then [1] else sh)"
  have pr: "promote (of_pairs sh qs) = of_pairs sh' qs" for qs
    by (simp add: promote_of_pairs sh'_def)
  have len': "length ps = prod_list sh'"
    using len by (simp add: sh'_def)
  have shp: "shape (of_pairs sh' ps) = sh' @ [2]"
    by (simp add: of_pairs_def)
  from pos have q: "float_truediv duration dt = Inr (Some fq)"
    by (simp add: float_truediv_def fq)
  from pos have "0 \<le> duration / dt" by simp
  with fq have "0 \<le> fq" by (rule round_double_nonneg)
  then have pi: "int_of_float (Some fq) = Inr (int n)"
    by (simp add: int_of_float_def py_int_nonneg n)
  define Z where "Z = zeros (Suc n # sh' @ [2])"
  have z: "torch_zeros ((int n + 1) # map int (sh' @ [2])) (PyStr d) = Inr Z"
    using torch_zeros_nat [of "Suc n # sh' @ [2]" d] by (simp add: Z_def add.commute)
  have zs: "shape Z = Suc n # sh' @ [2]"
    and zl: "length (data Z) = Suc n * prod_list (sh' @ [2])"
    by (simp_all add: Z_def zeros_def)
  obtain times where t: "torch_linspace 0 duration (int n + 1) (PyStr d) = Inr times"
    using torch_linspace_ok by blast
  have "0 + n < Suc n" by simp
  from simulate_loop_entries [OF gl nd nr zs zl len' this, of dt]
  obtain traj where run: "simulate_loop s dt [0..<n] (of_pairs sh' ps) Z = Inr traj"
    and ts: "shape traj = shape Z" and tl: "length (data traj) = length (data Z)"
    and t0: "\<forall>j \<le> 0. getitem0 traj j = getitem0 Z j"
    and te: "\<forall>j < n. getitem0 traj (0 + 1 + j)
                      = Inr (of_pairs sh' (map (rk4_spec gv lv dt ^^ (j + 1)) ps))"
    by auto
  have sim: "simulate s (TorchTensor (of_pairs sh ps)) duration dt return_tensor
             = Inr (times, traj)"
    by (simp only: simulate_def state_arg.case bind_result_def sum.case Let_def pr q pi dev
        shp z t run nat_int cpu_numpy_def if_cancel)
  have e0: "getitem0 traj 0 = Inr (zeros (sh' @ [2]))"
    using t0 by (simp add: Z_def getitem0_zeros)
  have ej: "\<forall>j < n. getitem0 traj (j + 1)
                    = Inr (of_pairs sh' (map (rk4_spec gv lv dt ^^ (j + 1)) ps))"
    using te by simp
  show ?thesis
    apply (rule exI [of _ times], rule exI [of _ traj])
    apply (simp only: pr shp)
    using sim t ts tl zs zl e0 ej apply simp
    done
qed

text \<open>
  Claim C10: for a tensor whose last axis has size 2, with any leading dimensions,
  \<open>dynamics\<close> and \<open>rk4_step\<close> return a tensor of the same shape, and every entry
  \<open>trajectory[i]\<close>, \<open>i\<close> from 0 to the number of steps, of the trajectory that
  \<open>simulate\<close> returns has the shape of the batch-promoted initial state. The number of
  steps is the integer part of the float quotient \<open>fq\<close> of duration and dt; it is not
  below the integer part of the exact quotient when that is below \<open>2^53\<close>.
\<close>

theorem shapes_preserved:
  assumes "g s = PyFloat gv" and "L s = PyFloat lv" and "lv \<noteq> 0"
    and "''dynamics'' \<notin> set (map fst (extra s))"
    and "''rk4_step'' \<notin> set (map fst (extra s))"
    and "device s = PyStr d"
    and "wf_tensor state" and "shape state = sh @ [2]"
    and "0 < duration" and "0 < dt"
    and "round_double (duration / dt) = Some fq"
  shows "(\<exists>k. dynamics s state t = Inr k \<and> shape k = shape state \<and> wf_tensor k)
       \<and> (\<exists>r. rk4_step s state dt = Inr r \<and> shape r = shape state \<and> wf_tensor r)
       \<and> (\<exists>times traj. simulate s (TorchTensor state) duration dt return_tensor
                           = Inr (times, traj)
            \<and> (\<forall>i \<le> nat \<lfloor>fq\<rfloor>. \<exists>e. getitem0 traj i = Inr e
                  \<and> shape e = shape (promote state) \<and> wf_tensor e))
       \<and> (duration / dt < 2 ^ 53 \<longrightarrow> nat \<lfloor>duration / dt\<rfloor> \<le> nat \<lfloor>fq\<rfloor>)"
proof (intro conjI impI)
  note tp = of_pairs_to_pairs [OF assms(7) assms(8)]
  let ?ps = "to_pairs state"
  have shp: "shape (of_pairs sh qs) = shape state" for qs
    by (simp add: of_pairs_def assms(8))
  from dynamics_of_pairs [OF assms(1-3) tp(2), of t]
  show "\<exists>k. dynamics s state t = Inr k \<and> shape k = shape state \<and> wf_tensor k"
    by (simp add: tp(1) shp wf_of_pairs tp(2))
  from rk4_step_of_pairs [OF assms(1-4) tp(2), of dt]
  show "\<exists>r. rk4_step s state dt = Inr r \<and> shape r = shape state \<and> wf_tensor r"
    by (simp add: tp(1) shp wf_of_pairs tp(2))
  let ?n = "nat \<lfloor>fq\<rfloor>"
  from simulate_entries [OF assms(1-6) assms(9) assms(10) tp(2) assms(11) refl,
      of return_tensor]
  obtain times traj
    where sim: "simulate s (TorchTensor state) duration dt return_tensor = Inr (times, traj)"
      and e0: "getitem0 traj 0 = Inr (zeros (shape (promote state)))"
      and ej: "\<forall>j < ?n. getitem0 traj (j + 1)
                 = Inr (promote (of_pairs sh (map (rk4_spec gv lv dt ^^ (j + 1)) ?ps)))"
    by (auto simp: tp(1))
  have "\<exists>e. getitem0 traj i = Inr e \<and> shape e = shape (promote state) \<and> wf_tensor e"
    if "i \<le> ?n" for i
  proof (cases i)
    case 0
    with e0 show ?thesis by (simp add: zeros_def wf_tensor_def)
  next
    case (Suc j)
    with that ej
    have "getitem0 traj i
          = Inr (promote (of_pairs sh (map (rk4_spec gv lv dt ^^ (j + 1)) ?ps)))"
      by simp
    moreover have "shape (promote (of_pairs sh (map (rk4_spec gv lv dt ^^ (j + 1)) ?ps)))
                   = shape (promote state)"
      using shape_promote_of_pairs [of sh _ ?ps] by (simp add: tp(1))
    moreover have "wf_tensor (promote (of_pairs sh (map (rk4_spec gv lv dt ^^ (j + 1)) ?ps)))"
      by (rule wf_promote_of_pairs) (simp add: tp(2))
    ultimately show ?thesis by simp
  qed
  with sim
  show "\<exists>times traj. simulate s (TorchTensor state) duration dt return_tensor = Inr (times, traj)
          \<and> (\<forall>i \<le> ?n. \<exists>e. getitem0 traj i = Inr e
                \<and> shape e = shape (promote state) \<and> wf_tensor e)"
    by blast
  from assms(9) assms(10) have q: "0 < duration / dt" by simp
  show "nat \<lfloor>duration / dt\<rfloor> \<le> nat \<lfloor>fq\<rfloor>" if "duration / dt < 2 ^ 53"
    by (rule steps_ge_floor [OF assms(11) q that])
qed

theorem shapes_preserved_witness:
  "(\<exists>k. dynamics (PendulumSimulator_init (PyStr ''mps'')) \<lparr>shape = [2], data = [1 / 10, 0]\<rparr> 0
          = Inr k \<and> shape k = [2] \<and> wf_tensor k)
   \<and> (\<exists>r. rk4_step (PendulumSimulator_init (PyStr ''mps''))
             \<lparr>shape = [2], data = [1 / 10, 0]\<rparr> (1 / 100)
          = Inr r \<and> shape r = [2] \<and> wf_tensor r)
   \<and> (\<exists>times traj.
         simulate (PendulumSimulator_init (PyStr ''mps''))
           (TorchTensor \<lparr>shape = [2], data = [1 / 10, 0]\<rparr>) 1 (1 / 100) True
          = Inr (times, traj)
       \<and> (\<exists>e. getitem0 traj 100 = Inr e \<and> shape e = [1, 2] \<and> wf_tensor e))"
proof -
  let ?s = "PendulumSimulator_init (PyStr ''mps'')"
  let ?T = "\<lparr>shape = [2], data = [1 / 10, 0]\<rparr>"
  have n: "nat \<lfloor>100 :: real\<rfloor> = 100" by simp
  have "g ?s = PyFloat (981 / 100)" "L ?s = PyFloat 1" "(1::real) \<noteq> 0"
    "''dynamics'' \<notin> set (map fst (extra ?s))" "''rk4_step'' \<notin> set (map fst (extra ?s))"
    "device ?s = PyStr ''mps''" "wf_tensor ?T" "shape ?T = [] @ [2]"
    "(0::real) < 1" "(0::real) < 1 / 100" "round_double (1 / (1 / 100)) = Some 100"
    by (simp_all add: params_init wf_single round_double_100)
  from shapes_preserved [OF this, of 0 True]
  have d: "\<exists>k. dynamics ?s ?T 0 = Inr k \<and> shape k = shape ?T \<and> wf_tensor k"
    and r: "\<exists>r. rk4_step ?s ?T (1 / 100) = Inr r \<and> shape r = shape ?T \<and> wf_tensor r"
    and t: "\<exists>times traj. simulate ?s (TorchTensor ?T) 1 (1 / 100) True = Inr (times, traj)
              \<and> (\<forall>i \<le> 100. \<exists>e. getitem0 traj i = Inr e
                    \<and> shape e = shape (promote ?T) \<and> wf_tensor e)"
    unfolding n by blast+
  from t obtain times traj
    where s: "simulate ?s (TorchTensor ?T) 1 (1 / 100) True = Inr (times, traj)"
      and e: "\<forall>i \<le> 100. \<exists>e. getitem0 traj i = Inr e
                \<and> shape e = shape (promote ?T) \<and> wf_tensor e"
    by blast
  from e have "\<exists>e. getitem0 traj 100 = Inr e \<and> shape e = shape (promote ?T) \<and> wf_tensor e"
    by simp
  with s d r show ?thesis
    by (simp add: promote_single)
qed

section \<open>Lengths and times\<close>


text \<open>A quotient that overflows: \<^verbatim>\<open>int\<close> of the infinity raises, whatever the state.\<close>

lemma round_double_overflow: "round_double (2 ^ 1025) = None"
proof -
  have "\<lfloor>log 2 (2 ^ 1025 :: real)\<rfloor> = 1025"
    by (rule floor_log2_eq) simp_all
  then have "double_exponent (2 ^ 1025) = 1025" by (simp add: double_exponent_def)
  then show ?thesis
    by (simp add: round_double_def round_half_even_def Let_def)
qed

lemma simulate_overflow:
  "simulate s (TorchTensor state) (2 ^ 1023) (1 / 4) return_tensor = Inl OverflowError"
proof -
  have "(2 ^ 1023 :: real) / (1 / 4) = 2 ^ 1025" by simp
  then have "float_truediv (2 ^ 1023) (1 / 4) = Inr None"
    by (simp only: float_truediv_def round_double_overflow) simp
  then show ?thesis
    by (simp add: simulate_def bind_result_def int_of_float_def)
qed





section \<open>The first entry of the trajectory\<close>

text \<open>
  What \<open>simulate\<close> does store: entry 0 of the trajectory is the zeros of the allocation,
  entry 1 is the step from the batch-promoted initial state, and every later entry is the
  step from the entry before it.
\<close>

lemma simulate_steps:
  assumes gl: "g s = PyFloat gv" "L s = PyFloat lv" "lv \<noteq> 0"
    and nd: "''dynamics'' \<notin> set (map fst (extra s))"
    and nr: "''rk4_step'' \<notin> set (map fst (extra s))"
    and dev: "device s = PyStr d"
    and wf: "wf_tensor state" and shp: "shape state = sh @ [2]"
    and pos: "0 < duration" "0 < dt"
    and fq: "round_double (duration / dt) = Some fq"
  shows "\<exists>times traj.
           simulate s (TorchTensor state) duration dt return_tensor = Inr (times, traj)
         \<and> getitem0 traj 0 = Inr (zeros (shape (promote state)))
         \<and> (0 < nat \<lfloor>fq\<rfloor> \<longrightarrow> getitem0 traj 1 = rk4_step s (promote state) dt)
         \<and> (\<forall>i. 1 \<le> i \<and> i < nat \<lfloor>fq\<rfloor>
              \<longrightarrow> getitem0 traj (i + 1) = bind_result (getitem0 traj i) (\<lambda>e. rk4_step s e dt))"
proof -
  note tp = of_pairs_to_pairs [OF wf shp]
  let ?ps = "to_pairs state"
  let ?n = "nat \<lfloor>fq\<rfloor>"
  let ?F = "rk4_spec gv lv dt"
  define sh' where "sh' = (if sh = [] then [1] else sh)"
  have pr: "promote (of_pairs sh qs) = of_pairs sh' qs" for qs
    by (simp add: promote_of_pairs sh'_def)
  have len': "length ?ps = prod_list sh'"
    using tp(2) by (simp add: sh'_def)
  have step: "rk4_step s (of_pairs sh' (map G ?ps)) dt = Inr (of_pairs sh' (map (\<lambda>p. ?F (G p)) ?ps))"
    for G
    using rk4_step_of_pairs [OF gl nd, of "map G ?ps" sh' dt] len' by (simp add: comp_def)
  from simulate_entries [OF gl nd nr dev pos tp(2) fq refl, of return_tensor]
  obtain times traj
    where sim: "simulate s (TorchTensor state) duration dt return_tensor = Inr (times, traj)"
      and e0: "getitem0 traj 0 = Inr (zeros (shape (promote state)))"
      and ej: "\<forall>j < ?n. getitem0 traj (j + 1) = Inr (of_pairs sh' (map (?F ^^ (j + 1)) ?ps))"
    by (auto simp: tp(1) pr)
  have first: "getitem0 traj 1 = rk4_step s (promote state) dt" if "0 < ?n"
  proof -
    from ej that have "getitem0 traj (0 + 1) = Inr (of_pairs sh' (map (?F ^^ (0 + 1)) ?ps))"
      by blast
    moreover have "promote state = of_pairs sh' ?ps"
      using pr [of ?ps] by (simp add: tp(1))
    moreover have "rk4_step s (of_pairs sh' ?ps) dt = Inr (of_pairs sh' (map ?F ?ps))"
      by (rule rk4_step_of_pairs [OF gl nd len'])
    ultimately show ?thesis
      by simp
  qed
  have later: "getitem0 traj (i + 1) = bind_result (getitem0 traj i) (\<lambda>e. rk4_step s e dt)"
    if "1 \<le> i" "i < ?n" for i
  proof -
    from that obtain j where i: "i = j + 1" and j: "j < ?n"
      by (cases i) auto
    from ej j have a: "getitem0 traj i = Inr (of_pairs sh' (map (?F ^^ i) ?ps))"
      by (simp add: i)
    from ej that have b: "getitem0 traj (i + 1) = Inr (of_pairs sh' (map (?F ^^ (i + 1)) ?ps))"
      by blast
    have "(\<lambda>p. ?F ((?F ^^ i) p)) = ?F ^^ (i + 1)"
      by (rule ext) simp
    with step [of "?F ^^ i"]
    have "rk4_step s (of_pairs sh' (map (?F ^^ i) ?ps)) dt
          = Inr (of_pairs sh' (map (?F ^^ (i + 1)) ?ps))"
      by (simp only:)
    with a b show ?thesis
      by (simp only: bind_result_def sum.case)
  qed
  have body: "simulate s (TorchTensor state) duration dt return_tensor = Inr (times, traj)
         \<and> getitem0 traj 0 = Inr (zeros (shape (promote state)))
         \<and> (0 < ?n \<longrightarrow> getitem0 traj 1 = rk4_step s (promote state) dt)
         \<and> (\<forall>i. 1 \<le> i \<and> i < ?n
              \<longrightarrow> getitem0 traj (i + 1) = bind_result (getitem0 traj i) (\<lambda>e. rk4_step s e dt))"
  proof (intro conjI impI allI)
    show "simulate s (TorchTensor state) duration dt return_tensor = Inr (times, traj)"
      by (rule sim)
    show "getitem0 traj 0 = Inr (zeros (shape (promote state)))"
      by (rule e0)
    show "getitem0 traj 1 = rk4_step s (promote state) dt" if "0 < ?n"
      by (rule first [OF that])
    show "getitem0 traj (i + 1) = bind_result (getitem0 traj i) (\<lambda>e. rk4_step s e dt)"
      if "1 \<le> i \<and> i < ?n" for i
      using that by (intro later) simp_all
  qed
  show ?thesis
    by (rule exI [of _ times], rule exI [of _ traj], rule body)
qed

lemma getitem0_shape:
  "shape t = N # sh \<Longrightarrow> i < N \<Longrightarrow> \<exists>e. getitem0 t i = Inr e \<and> shape e = sh"
  by (simp add: getitem0_def Let_def)

lemma simulate_default_run:
  "\<exists>times traj.
     simulate (PendulumSimulator_init (PyStr ''mps''))
       (TorchTensor \<lparr>shape = [2], data = [1 / 10, 0]\<rparr>) 1 (1 / 100) True = Inr (times, traj)
     \<and> shape traj = [101, 1, 2]
     \<and> getitem0 traj 0 = Inr \<lparr>shape = [1, 2], data = [0, 0]\<rparr>"
proof -
  let ?s = "PendulumSimulator_init (PyStr ''mps'')"
  have t: "of_pairs [] [(1 / 10, 0)] = \<lparr>shape = [2], data = [1 / 10, 0]\<rparr>"
    by (simp add: of_pairs_def)
  have n: "(100::nat) = nat \<lfloor>100 :: real\<rfloor>" by simp
  have fq: "round_double (1 / (1 / 100)) = Some 100"
    by (simp add: round_double_100)
  have p: "promote \<lparr>shape = [2], data = [1 / 10, 0]\<rparr> = \<lparr>shape = [1, 2], data = [1 / 10, 0]\<rparr>"
    by (simp add: promote_def tensor_dim_def unsqueeze0_def)
  have "g ?s = PyFloat (981 / 100)" "L ?s = PyFloat 1" "(1::real) \<noteq> 0"
    "''dynamics'' \<notin> set (map fst (extra ?s))" "''rk4_step'' \<notin> set (map fst (extra ?s))"
    "device ?s = PyStr ''mps''" "(0::real) < 1" "(0::real) < 1 / 100"
    "length [(1 / 10 :: real, 0 :: real)] = prod_list []"
    by (simp_all add: params_init)
  moreover have z: "zeros [1, 2] = \<lparr>shape = [1, 2], data = [0, 0]\<rparr>"
    by (simp add: zeros_def numeral_2_eq_2)
  ultimately show ?thesis
    using simulate_entries [OF _ _ _ _ _ _ _ _ _ fq n, of "PendulumSimulator_init (PyStr ''mps'')"
        "981 / 100" 1 "''mps''" "[(1 / 10, 0)]" "[]" True]
    by (auto simp: t p)
qed

text \<open>
  Claim C1 says that \<open>trajectory[0]\<close> is the batch-promoted initial state. For the
  initial state \<open>[0.1, 0.0]\<close>, duration 1 and dt 0.01, on the simulator as constructed,
  the batch-promoted initial state is \<open>[[0.1, 0.0]]\<close> and the code returns a trajectory
  whose entry 0 is \<open>[[0, 0]]\<close>: the zeros of the allocation, which nothing overwrites.
\<close>

theorem simulate_first_entry_is_zero:
  "\<exists>times traj.
     simulate (PendulumSimulator_init (PyStr ''mps''))
       (TorchTensor \<lparr>shape = [2], data = [1 / 10, 0]\<rparr>) 1 (1 / 100) True = Inr (times, traj)
     \<and> getitem0 traj 0 = Inr \<lparr>shape = [1, 2], data = [0, 0]\<rparr>
     \<and> promote \<lparr>shape = [2], data = [1 / 10, 0]\<rparr> = \<lparr>shape = [1, 2], data = [1 / 10, 0]\<rparr>
     \<and> getitem0 traj 0 \<noteq> Inr (promote \<lparr>shape = [2], data = [1 / 10, 0]\<rparr>)"
proof -
  have p: "promote \<lparr>shape = [2], data = [1 / 10, 0]\<rparr> = \<lparr>shape = [1, 2], data = [1 / 10, 0]\<rparr>"
    by (simp add: promote_def tensor_dim_def unsqueeze0_def)
  from simulate_default_run show ?thesis
    by (auto simp: p)
qed

section \<open>Cartesian coordinates\<close>

lemma select_theta:
  "length ps = prod_list sh \<Longrightarrow>
   select_last (of_pairs sh ps) 0 = Inr \<lparr>shape = sh, data = map fst ps\<rparr>"
  by (simp add: select_last_def rows_of_pairs) (simp add: of_pairs_def comp_def)

lemma on_circle: "(lv * sin x)\<^sup>2 + (lv * cos x)\<^sup>2 = (lv::real)\<^sup>2"
proof -
  have "(lv * sin x)\<^sup>2 + (lv * cos x)\<^sup>2 = lv\<^sup>2 * (sin x)\<^sup>2 + lv\<^sup>2 * (cos x)\<^sup>2"
    by (simp only: power_mult_distrib)
  also have "\<dots> = lv\<^sup>2 * ((sin x)\<^sup>2 + (cos x)\<^sup>2)"
    by (simp only: distrib_left)
  also have "\<dots> = lv\<^sup>2"
    by simp
  finally show ?thesis .
qed

text \<open>
  Claim C8: for a batch of states of any leading dimensions \<open>sh\<close>,
  \<open>compute_cartesian_coords\<close> returns \<open>x = L*sin(theta)\<close> and \<open>y = L*cos(theta)\<close>,
  one entry for each state, of shape \<open>sh\<close>, and \<open>x^2 + y^2 = L^2\<close> at every entry.
\<close>

theorem cartesian_coords_on_circle:
  assumes "L s = PyFloat lv" and "wf_tensor states" and "shape states = sh @ [2]"
  shows "\<exists>x y. compute_cartesian_coords s states = Inr (x, y)
           \<and> shape x = sh \<and> shape y = sh
           \<and> data x = map (\<lambda>p. lv * sin (fst p)) (to_pairs states)
           \<and> data y = map (\<lambda>p. lv * cos (fst p)) (to_pairs states)
           \<and> (\<forall>i < prod_list sh. (data x ! i)\<^sup>2 + (data y ! i)\<^sup>2 = lv\<^sup>2)"
proof -
  note tp = of_pairs_to_pairs [OF assms(2) assms(3)]
  let ?ps = "to_pairs states"
  let ?x = "\<lparr>shape = sh, data = map (\<lambda>p. lv * sin (fst p)) ?ps\<rparr>"
  let ?y = "\<lparr>shape = sh, data = map (\<lambda>p. lv * cos (fst p)) ?ps\<rparr>"
  have sel: "select_last states 0 = Inr \<lparr>shape = sh, data = map fst ?ps\<rparr>"
    using select_theta [OF tp(2)] by (simp add: tp(1))
  have "compute_cartesian_coords s states = Inr (?x, ?y)"
    by (simp add: compute_cartesian_coords_def bind_result_def sel assms(1) scale_def
        torch_sin_def torch_cos_def tmap_def comp_def)
  moreover have "(data ?x ! i)\<^sup>2 + (data ?y ! i)\<^sup>2 = lv\<^sup>2" if "i < prod_list sh" for i
    using that by (simp add: tp(2) on_circle)
  ultimately show ?thesis
    by (intro exI [of _ ?x] exI [of _ ?y]) simp
qed

theorem cartesian_coords_on_circle_witness:
  "\<exists>x y. compute_cartesian_coords (PendulumSimulator_init (PyStr ''mps''))
            \<lparr>shape = [2], data = [0, 1]\<rparr> = Inr (x, y)
         \<and> shape x = [] \<and> shape y = [] \<and> data x = [0] \<and> data y = [1]
         \<and> (data x ! 0)\<^sup>2 + (data y ! 0)\<^sup>2 = 1"
proof -
  have "shape \<lparr>shape = [2], data = [0, 1]\<rparr> = [] @ [2]" by simp
  from cartesian_coords_on_circle [OF params_init(2) wf_single this, of "PyStr ''mps''"]
  show ?thesis
    by (simp add: to_pairs_single)
qed

section \<open>The energy along a trajectory\<close>

lemma compute_energy_init_raises:
  "shape e = sh @ [2] \<Longrightarrow> compute_energy (PendulumSimulator_init dev) e = Inl TypeError"
  by (simp add: compute_energy_def bind_result_def select_last_def params_init)

text \<open>
  Claim C9 says that the energy \<open>compute_energy(trajectory[i])\<close> stays within a
  tolerance along the trajectory. For the initial state \<open>[0.1, 0.0]\<close>, duration 1 and
  dt 0.01, on the simulator as constructed, \<open>simulate\<close> returns a trajectory of 101
  entries, and \<open>compute_energy\<close> raises TypeError on each of them: there is no energy
  to compare.
\<close>

theorem energy_of_trajectory_raises:
  "\<exists>times traj.
     simulate (PendulumSimulator_init (PyStr ''mps''))
       (TorchTensor \<lparr>shape = [2], data = [1 / 10, 0]\<rparr>) 1 (1 / 100) True = Inr (times, traj)
     \<and> map (\<lambda>i. bind_result (getitem0 traj i)
                  (compute_energy (PendulumSimulator_init (PyStr ''mps'')))) [0..<101]
       = replicate 101 (Inl TypeError)"
proof -
  let ?s = "PendulumSimulator_init (PyStr ''mps'')"
  from simulate_default_run obtain times traj
    where sim: "simulate ?s (TorchTensor \<lparr>shape = [2], data = [1 / 10, 0]\<rparr>) 1 (1 / 100) True
                = Inr (times, traj)"
      and shp: "shape traj = [101, 1, 2]"
    by blast
  have "bind_result (getitem0 traj i) (compute_energy ?s) = Inl TypeError" if "i < 101" for i
  proof -
    from getitem0_shape [OF shp that] obtain e
      where e: "getitem0 traj i = Inr e" "shape e = [1, 2]" by blast
    from compute_energy_init_raises [of e "[1]" "PyStr ''mps''"] e
    show ?thesis by (simp add: bind_result_def)
  qed
  then have "map (\<lambda>i. bind_result (getitem0 traj i) (compute_energy ?s)) [0..<101]
             = map (\<lambda>i. Inl TypeError) [0..<101]"
    by (intro map_cong refl) simp
  also have "\<dots> = replicate 101 (Inl TypeError)"
    by (simp add: map_replicate_const)
  finally show ?thesis using sim by blast
qed

end
